theory Spec2Isabelle
  imports Main "HOL-Library.Sublist" "HOL-Library.Multiset"
begin

section \<open>Python values used by bookly.py\<close>

text \<open>
  The program is a single Python file. A Python \<open>str\<close> is modelled as a \<open>string\<close>
  (a list of 8-bit characters, read as the code points 0 to 255), a Python \<open>int\<close> as
  \<open>int\<close>. An exception is a value of \<open>py_error\<close> (a \<open>RuntimeError\<close> carries its
  message); a function that can raise returns \<open>py_error + 'a\<close> with \<open>Inl\<close> for the
  exception.
\<close>

datatype py_error = ValueError | IndexError | RuntimeError string

subsection \<open>str.strip, str.split, the in operator, str.replace, str.rfind\<close>

text \<open>
  \<open>str.isspace\<close> on the code points below 256: tab to carriage return, the four
  separators 28 to 31, the space, NEL (133) and the no-break space (160).
\<close>

definition isspace :: "char \<Rightarrow> bool" where
  "isspace c = (of_char c \<in> set [9, 10, 11, 12, 13, 28, 29, 30, 31, 32, 133, 160 :: nat])"

definition str_strip :: "string \<Rightarrow> string" where
  "str_strip s = rev (dropWhile isspace (rev (dropWhile isspace s)))"

text \<open>
  \<open>s.split()\<close> with no argument: the maximal runs of non-whitespace characters.
  The first argument is the word being read, reversed.
\<close>

fun split_ws :: "string \<Rightarrow> string \<Rightarrow> string list" where
  "split_ws w [] = (if w = [] then [] else [rev w])"
| "split_ws w (c # cs) =
     (if isspace c then (if w = [] then split_ws [] cs else rev w # split_ws [] cs)
      else split_ws (c # w) cs)"

definition str_split :: "string \<Rightarrow> string list" where
  "str_split s = split_ws [] s"

text \<open>\<open>s.split(sep)\<close> for a one-character separator: never an empty list.\<close>

fun split_on :: "char \<Rightarrow> string \<Rightarrow> string list" where
  "split_on sep [] = [[]]"
| "split_on sep (c # cs) =
     (case split_on sep cs of
        [] \<Rightarrow> [[c]]
      | p # ps \<Rightarrow> if c = sep then [] # p # ps else (c # p) # ps)"

text \<open>\<open>old in s\<close>: \<open>old\<close> occurs in \<open>s\<close> as a contiguous substring.\<close>

fun str_contains :: "string \<Rightarrow> string \<Rightarrow> bool" where
  "str_contains old [] = (old = [])"
| "str_contains old (c # cs) = (prefix old (c # cs) \<or> str_contains old cs)"

text \<open>
  \<open>s.replace(old, new)\<close>: scanning from the left, every occurrence of \<open>old\<close> that
  does not overlap an earlier replaced one is replaced by \<open>new\<close>. For an empty \<open>old\<close>
  Python inserts \<open>new\<close> before every character and at the end.
\<close>

fun str_replace :: "string \<Rightarrow> string \<Rightarrow> string \<Rightarrow> string" where
  "str_replace old new [] = (if old = [] then new else [])"
| "str_replace old new (c # cs) =
     (case old of
        [] \<Rightarrow> new @ c # str_replace old new cs
      | _ # os \<Rightarrow>
          if prefix old (c # cs) then new @ str_replace old new (drop (length os) cs)
          else c # str_replace old new cs)"

text \<open>
  \<open>s.rfind(sub)\<close>: the highest index at which \<open>sub\<close> starts, or -1. The scan carries
  the current index and the best index found so far.
\<close>

fun rfind_from :: "string \<Rightarrow> nat \<Rightarrow> int \<Rightarrow> string \<Rightarrow> int" where
  "rfind_from sub i best [] = (if sub = [] then int i else best)"
| "rfind_from sub i best (c # cs) =
     rfind_from sub (Suc i) (if prefix sub (c # cs) then int i else best) cs"

definition str_rfind :: "string \<Rightarrow> string \<Rightarrow> int" where
  "str_rfind s sub = rfind_from sub 0 (- 1) s"

subsection \<open>int(s) and str(n)\<close>

definition isdigit :: "char \<Rightarrow> bool" where
  "isdigit c = (48 \<le> (of_char c :: nat) \<and> (of_char c :: nat) \<le> 57)"

definition digit_val :: "char \<Rightarrow> nat" where
  "digit_val c = of_char c - 48"

text \<open>
  The digits after the first one: single underscores may separate digits. The flag says
  that the previous character was an underscore.
\<close>

fun more_digits :: "nat \<Rightarrow> bool \<Rightarrow> string \<Rightarrow> nat option" where
  "more_digits acc us [] = (if us then None else Some acc)"
| "more_digits acc us (c # cs) =
     (if isdigit c then more_digits (10 * acc + digit_val c) False cs
      else if c = CHR ''_'' \<and> \<not> us then more_digits acc True cs
      else None)"

definition parse_digits :: "string \<Rightarrow> nat option" where
  "parse_digits s =
     (case s of
        [] \<Rightarrow> None
      | c # cs \<Rightarrow> if isdigit c then more_digits (digit_val c) False cs else None)"

text \<open>
  \<open>int(s)\<close> for a string, base 10. The whitespace that \<open>int\<close> skips at both ends is
  not that of \<open>str.strip\<close>: of the code points below 256 it is tab to carriage return,
  the space, NEL (133) and the no-break space (160), but not the separators 28 to 31.
  Then one sign is allowed, then digits. The interpreter refuses a conversion of more
  than 4300 digits (its default limit; leading zeros count, underscores do not).
  Every refusal is a \<open>ValueError\<close>.
\<close>

definition int_space :: "char \<Rightarrow> bool" where
  "int_space c = (of_char c \<in> set [9, 10, 11, 12, 13, 32, 133, 160 :: nat])"

definition max_str_digits :: nat where
  "max_str_digits = 4300"

definition int_of_str :: "string \<Rightarrow> py_error + int" where
  "int_of_str s =
     (case rev (dropWhile int_space (rev (dropWhile int_space s))) of
        [] \<Rightarrow> Inl ValueError
      | c # cs \<Rightarrow>
          (let body = (if c = CHR ''-'' \<or> c = CHR ''+'' then cs else c # cs) in
           case parse_digits body of
             None \<Rightarrow> Inl ValueError
           | Some n \<Rightarrow>
               if max_str_digits < length (filter isdigit body) then Inl ValueError
               else Inr (if c = CHR ''-'' then - int n else int n)))"

definition digit_char :: "nat \<Rightarrow> char" where
  "digit_char d = char_of (48 + d)"

function digits :: "nat \<Rightarrow> string" where
  "digits n = (if n < 10 then [digit_char n] else digits (n div 10) @ [digit_char (n mod 10)])"
  by pat_completeness auto
termination
  by (relation "measure id") auto

declare digits.simps [simp del]

text \<open>
  \<open>str(n)\<close>, which is also what \<open>f"{n}"\<close> renders. The limit of 4300 digits holds for
  this direction too. The program renders only its counters and the page count: the
  quiz length comes out of \<open>int\<close> with at most 4300 digits, and score and question
  count start at 0 and never pass it, so the limit is not met in a run of the program.
\<close>

definition str_of_int :: "int \<Rightarrow> string" where
  "str_of_int i = (if i < 0 then CHR ''-'' # digits (nat (- i)) else digits (nat i))"

section \<open>The score store\<close>

text \<open>
  \<open>get_highest_score\<close> reads \<open>self.scores\<close>, a list of strings. The key of a record is
  \<open>int(s.split('/')[0].strip())\<close>; the subscript raises \<open>IndexError\<close> on an empty list.
\<close>

definition score_key :: "string \<Rightarrow> py_error + int" where
  "score_key s =
     (case split_on CHR ''/'' s of
        [] \<Rightarrow> Inl IndexError
      | p # _ \<Rightarrow> int_of_str (str_strip p))"

text \<open>
  \<open>max(xs, key=f)\<close> on a non-empty list: \<open>f\<close> is applied to the elements from left to
  right, the first exception ends the call, and a later element replaces the current
  maximum only when its key is strictly greater.
\<close>

fun max_from :: "string \<Rightarrow> int \<Rightarrow> string list \<Rightarrow> py_error + string" where
  "max_from best k [] = Inr best"
| "max_from best k (s # ss) =
     (case score_key s of
        Inl e \<Rightarrow> Inl e
      | Inr k' \<Rightarrow> if k' > k then max_from s k' ss else max_from best k ss)"

definition max_by_key :: "string list \<Rightarrow> py_error + string" where
  "max_by_key xs =
     (case xs of
        [] \<Rightarrow> Inl ValueError
      | s # ss \<Rightarrow> (case score_key s of Inl e \<Rightarrow> Inl e | Inr k \<Rightarrow> max_from s k ss))"

text \<open>
  The \<open>except (ValueError, IndexError)\<close> clause returns \<open>"N/A"\<close>. These are the only
  exceptions the key raises on a list of strings (lemma \<open>score_key_raises\<close> below), so
  the clause catches every exception of the call.
\<close>

definition get_highest_score :: "string list \<Rightarrow> string" where
  "get_highest_score scores =
     (if scores = [] then ''N/A''
      else (case max_by_key scores of Inl e \<Rightarrow> ''N/A'' | Inr s \<Rightarrow> s))"

section \<open>The question generator\<close>

subsection \<open>What the language analysis returns\<close>

text \<open>
  \<open>generate_quiz_question\<close> reads the spaCy document only through \<open>doc.ents\<close> (each
  entity's \<open>text\<close> and \<open>label_\<close>), the tokens (\<open>text\<close>, \<open>pos_\<close>, \<open>is_stop\<close>,
  \<open>is_punct\<close>) and \<open>doc.sents\<close> (each sentence's \<open>text\<close>). The model is outside the
  repository, so its result is a parameter: \<open>nlp text\<close> is the document, or the
  exception that \<open>get_nlp_model()\<close> or the analysis raised.
\<close>

record entity =
  ent_text :: string
  ent_label :: string

record token =
  tok_text :: string
  tok_pos :: string
  tok_is_stop :: bool
  tok_is_punct :: bool

record spacy_doc =
  ents :: "entity list"
  tokens :: "token list"
  sents :: "string list"

type_synonym nlp_model = "string \<Rightarrow> py_error + spacy_doc"

subsection \<open>Iteration order of a set and the random module\<close>

text \<open>
  The function is not deterministic: \<open>list(set(...))\<close> lists the distinct elements in
  an order the hash seed decides, and \<open>random.choice\<close>, \<open>random.sample\<close> and
  \<open>random.shuffle\<close> draw from the generator. All four are driven here by numbers given
  from outside, so that every behaviour of the program is the behaviour of the model
  for some \<open>chance\<close>: an index below \<open>n\<close> is a number taken modulo \<open>n\<close>.
\<close>

record chance =
  set_order :: "nat \<Rightarrow> nat"
  choice_index :: nat
  sample_index :: "nat \<Rightarrow> nat"
  shuffle_index :: "nat \<Rightarrow> nat"

definition pop_at :: "nat \<Rightarrow> 'a list \<Rightarrow> 'a list" where
  "pop_at j xs = take j xs @ drop (Suc j) xs"

text \<open>
  \<open>draw r k xs\<close> takes \<open>k\<close> elements of \<open>xs\<close> at pairwise different positions: each
  draw removes the drawn position from the pool. It is used with \<open>k \<le> length xs\<close>.
\<close>

fun draw :: "(nat \<Rightarrow> nat) \<Rightarrow> nat \<Rightarrow> 'a list \<Rightarrow> 'a list" where
  "draw r 0 xs = []"
| "draw r (Suc k) xs = xs ! (r k mod length xs) # draw r k (pop_at (r k mod length xs) xs)"

definition list_of_set :: "(nat \<Rightarrow> nat) \<Rightarrow> 'a list \<Rightarrow> 'a list" where
  "list_of_set h xs = draw h (length (remdups xs)) (remdups xs)"

definition random_choice :: "nat \<Rightarrow> 'a list \<Rightarrow> py_error + 'a" where
  "random_choice r xs = (if xs = [] then Inl IndexError else Inr (xs ! (r mod length xs)))"

definition random_sample :: "(nat \<Rightarrow> nat) \<Rightarrow> 'a list \<Rightarrow> nat \<Rightarrow> py_error + 'a list" where
  "random_sample r xs k = (if length xs < k then Inl ValueError else Inr (draw r k xs))"

definition random_shuffle :: "(nat \<Rightarrow> nat) \<Rightarrow> 'a list \<Rightarrow> 'a list" where
  "random_shuffle r xs = draw r (length xs) xs"

subsection \<open>The function \<open>generate_quiz_question\<close>\<close>

record quiz_question =
  question :: string
  choices :: "string list"
  answer :: string

definition entity_labels :: "string list" where
  "entity_labels =
     [''PERSON'', ''GPE'', ''ORG'', ''PRODUCT'', ''LOC'', ''MONEY'', ''DATE'', ''TIME'']"

definition entities :: "spacy_doc \<Rightarrow> entity list" where
  "entities d = filter (\<lambda>e. ent_label e \<in> set entity_labels) (ents d)"

definition named_entities :: "(nat \<Rightarrow> nat) \<Rightarrow> spacy_doc \<Rightarrow> string list" where
  "named_entities h d =
     list_of_set h
       (map (\<lambda>e. str_strip (ent_text e))
          (filter (\<lambda>e. length (str_strip (ent_text e)) > 1) (entities d)))"

definition important_nouns :: "spacy_doc \<Rightarrow> string list" where
  "important_nouns d =
     map tok_text
       (filter (\<lambda>t. tok_pos t = ''NOUN'' \<and> \<not> tok_is_stop t \<and> length (tok_text t) > 3)
          (tokens d))"

definition significant_words :: "spacy_doc \<Rightarrow> string list" where
  "significant_words d =
     map tok_text
       (filter (\<lambda>t. \<not> tok_is_stop t \<and> \<not> tok_is_punct t \<and> length (tok_text t) > 2)
          (tokens d))"

text \<open>
  The three assignments to \<open>unique_entities\<close>: the named entities, replaced by the
  important nouns when there are fewer than four, replaced by the significant words
  when there are still fewer than four.
\<close>

definition unique_entities :: "(nat \<Rightarrow> nat) \<Rightarrow> spacy_doc \<Rightarrow> string list" where
  "unique_entities h d =
     (let u1 = named_entities h d;
          u2 = (if length u1 < 4 then list_of_set h (important_nouns d) else u1);
          u3 = (if length u2 < 4 then list_of_set h (significant_words d) else u2)
      in u3)"

text \<open>
  The loop over \<open>doc.sents\<close>: the first sentence that contains the answer and has more
  than five words ends the loop; the empty string is left when no sentence does.
\<close>

fun find_sentence :: "string \<Rightarrow> string list \<Rightarrow> string" where
  "find_sentence correct_answer [] = []"
| "find_sentence correct_answer (s # ss) =
     (if str_contains correct_answer s \<and> length (str_split s) > 5
      then str_replace correct_answer ''_____'' s
      else find_sentence correct_answer ss)"

definition missing_word :: string where
  "missing_word = ''What is the missing word: _____?''"

text \<open>The body of the \<open>try\<close> block; \<open>Inr None\<close> is its \<open>return None\<close>.\<close>

definition quiz_body :: "nlp_model \<Rightarrow> chance \<Rightarrow> string \<Rightarrow> py_error + quiz_question option" where
  "quiz_body nlp ch text =
     (case nlp text of
        Inl e \<Rightarrow> Inl e
      | Inr d \<Rightarrow>
          (let u = unique_entities (set_order ch) d in
           if length u < 4 then Inr None
           else
             (case random_choice (choice_index ch) u of
                Inl e \<Rightarrow> Inl e
              | Inr correct_answer \<Rightarrow>
                  (let found = find_sentence correct_answer (sents d);
                       question_sentence = (if found = [] then missing_word else found)
                   in case random_sample (sample_index ch)
                             (filter (\<lambda>e. e \<noteq> correct_answer) u) 3 of
                        Inl e \<Rightarrow> Inl e
                      | Inr distractors \<Rightarrow>
                          Inr (Some \<lparr>question = question_sentence,
                                     choices = random_shuffle (shuffle_index ch)
                                                 (distractors @ [correct_answer]),
                                     answer = correct_answer\<rparr>)))))"

text \<open>
  The guard on blank text stands before the \<open>try\<close>; \<open>except Exception\<close> turns every
  exception of the body into \<open>None\<close>.
\<close>

definition generate_quiz_question :: "nlp_model \<Rightarrow> chance \<Rightarrow> string \<Rightarrow> quiz_question option" where
  "generate_quiz_question nlp ch text =
     (if str_strip text = [] then None
      else (case quiz_body nlp ch text of Inl e \<Rightarrow> None | Inr r \<Rightarrow> r))"

section \<open>The text extractor\<close>

text \<open>
  The opened PyMuPDF document is outside the repository. The program reads its
  \<open>page_count\<close> and, for an index \<open>i\<close>, \<open>pdf_doc[i].get_text("text")\<close>: the text of the
  page, or an exception, of which the message is kept.
\<close>

record pdf_document =
  page_count :: int
  page_text :: "int \<Rightarrow> string + string"

text \<open>
  The list comprehension over \<open>range(start_page, end_page + 1)\<close>, from left to right;
  the first exception ends it.
\<close>

fun page_texts :: "pdf_document \<Rightarrow> int list \<Rightarrow> string + string list" where
  "page_texts doc [] = Inr []"
| "page_texts doc (p # ps) =
     (case page_text doc (p - 1) of
        Inl m \<Rightarrow> Inl m
      | Inr t \<Rightarrow> (case page_texts doc ps of Inl m \<Rightarrow> Inl m | Inr ts \<Rightarrow> Inr (t # ts)))"

definition extract_text_from_pdf :: "pdf_document \<Rightarrow> int \<Rightarrow> int \<Rightarrow> py_error + string" where
  "extract_text_from_pdf doc start_page end_page =
     (case page_texts doc [start_page..end_page] of
        Inl m \<Rightarrow> Inl (RuntimeError (''Failed to extract text from PDF: '' @ m))
      | Inr ts \<Rightarrow> Inr (concat ts))"

section \<open>The application state and its handlers\<close>

text \<open>
  \<open>PDFQuizApp\<close> keeps its state in attributes and in the widgets it owns. The record
  has the attributes the handlers read or write, and of every widget the part they
  read or write: the page is the main view or the quiz view, with at most one dialog
  (title and message); the score file holds a list of strings or is absent, and a
  write to it can fail. \<open>quiz_timer\<close> says that a timer for the next question is
  pending. The score list view holds the records it shows, without the bullet prefix.
\<close>

datatype view = Main_view | Quiz_view

record app =
  pdf_doc :: "pdf_document option"
  extracted_text_content :: string
  scores :: "string list"
  scores_file_content :: "string list option"
  scores_file_writable :: bool
  max_questions :: int
  quiz_timer :: bool
  quiz_score :: int
  quiz_questions_asked :: int
  quiz_correct_answer :: string
  start_page_entry :: string
  end_page_entry :: string
  num_questions_entry :: string
  output_text_area :: string
  output_text_area_disabled :: bool
  start_quiz_button_disabled :: bool
  highest_score_label :: string
  score_list_view :: "string list"
  quiz_score_label :: string
  quiz_highest_score_label :: string
  quiz_question_label :: string
  quiz_choices_group :: "string list"
  quiz_choices_group_value :: "string option"
  quiz_feedback_label :: string
  quiz_feedback_color :: string
  quiz_submit_button_disabled :: bool
  page_controls :: view
  page_dialog :: "(string \<times> string) option"

definition show_error_dialog :: "string \<Rightarrow> string \<Rightarrow> app \<Rightarrow> app" where
  "show_error_dialog message title s = s\<lparr>page_dialog := Some (title, message)\<rparr>"

subsection \<open>Scores\<close>

text \<open>\<open>save_scores\<close>: the file is rewritten with the whole list; an \<open>IOError\<close> is printed.\<close>

definition save_scores :: "app \<Rightarrow> app" where
  "save_scores s =
     (if scores_file_writable s then s\<lparr>scores_file_content := Some (scores s)\<rparr> else s)"

definition update_score_display :: "app \<Rightarrow> app" where
  "update_score_display s =
     s\<lparr>highest_score_label := ''Highest Score: '' @ get_highest_score (scores s),
       score_list_view := rev (drop (length (scores s) - 10) (scores s))\<rparr>"

definition build_main_view :: "app \<Rightarrow> app" where
  "build_main_view s = s\<lparr>page_controls := Main_view\<rparr>"

text \<open>\<open>if final_score:\<close> is false for \<open>None\<close> and for the empty string.\<close>

definition handle_quiz_end :: "string option \<Rightarrow> app \<Rightarrow> app" where
  "handle_quiz_end final_score s =
     build_main_view
       (case final_score of
          None \<Rightarrow> s
        | Some r \<Rightarrow>
            if r = [] then s
            else update_score_display (save_scores (s\<lparr>scores := scores s @ [r]\<rparr>)))"

definition end_quiz_clicked :: "app \<Rightarrow> app" where
  "end_quiz_clicked s =
     handle_quiz_end
       (if quiz_questions_asked s > 0
        then Some (str_of_int (quiz_score s) @ '' / '' @ str_of_int (quiz_questions_asked s))
        else None)
       (s\<lparr>quiz_timer := False\<rparr>)"

subsection \<open>The quiz\<close>

definition build_quiz_view :: "app \<Rightarrow> app" where
  "build_quiz_view s =
     s\<lparr>page_controls := Quiz_view,
       quiz_score_label := ''Score: 0'',
       quiz_highest_score_label := ''High Score to Beat: '' @ get_highest_score (scores s),
       quiz_question_label := ''Loading...'',
       quiz_choices_group := [],
       quiz_choices_group_value := None,
       quiz_feedback_label := [],
       quiz_feedback_color := [],
       quiz_submit_button_disabled := False\<rparr>"

text \<open>The text put on the question label: long questions are cut, blanks are bracketed.\<close>

definition question_text :: "string \<Rightarrow> string" where
  "question_text q =
     str_replace ''_____'' ''[_____]''
       (if length q > 200
        then (let last_blank = str_rfind q ''_____'' in
              if last_blank > 150 then take (nat (last_blank + 5)) q @ ''...''
              else take 200 q @ ''...'')
        else q)"

definition quiz_finished_message :: "app \<Rightarrow> string" where
  "quiz_finished_message s =
     ''Quiz complete! You reached your goal of '' @ str_of_int (max_questions s) @
     '' questions.'' @ [CHR 0x0A, CHR 0x0A] @ ''Final Score: '' @ str_of_int (quiz_score s) @
     '' / '' @ str_of_int (max_questions s)"

definition content_exhausted_message :: "app \<Rightarrow> string" where
  "content_exhausted_message s =
     ''The quiz has ended after '' @ str_of_int (quiz_questions_asked s) @
     '' questions because the app could not find enough unique content to generate more.'' @
     [CHR 0x0A, CHR 0x0A] @ ''Final Score: '' @ str_of_int (quiz_score s) @
     '' / '' @ str_of_int (quiz_questions_asked s)"

definition generate_and_display_mcq :: "nlp_model \<Rightarrow> chance \<Rightarrow> app \<Rightarrow> app" where
  "generate_and_display_mcq nlp ch s =
     (if quiz_questions_asked s \<ge> max_questions s
      then end_quiz_clicked (show_error_dialog (quiz_finished_message s) ''Quiz Finished!'' s)
      else
        (let s1 = s\<lparr>quiz_feedback_label := [],
                     quiz_submit_button_disabled := False,
                     quiz_score_label :=
                       ''Score: '' @ str_of_int (quiz_score s) @ '' | Question: '' @
                       str_of_int (quiz_questions_asked s + 1) @ '' of '' @
                       str_of_int (max_questions s)\<rparr>
         in case generate_quiz_question nlp ch (extracted_text_content s1) of
              Some question_data \<Rightarrow>
                s1\<lparr>quiz_question_label := question_text (question question_data),
                   quiz_choices_group := choices question_data,
                   quiz_correct_answer := answer question_data\<rparr>
            | None \<Rightarrow>
                end_quiz_clicked
                  (show_error_dialog (content_exhausted_message s1)
                     ''Quiz Content Exhausted'' s1)))"

definition insufficient_text :: "string \<times> string" where
  "insufficient_text = (''Error'', ''Please extract more text for a good quiz.'')"

definition invalid_quiz_length :: "string \<times> string" where
  "invalid_quiz_length =
     (''Error'', ''Please enter a valid, positive number for the quiz length.'')"

text \<open>
  \<open>start_quiz_clicked\<close>: \<open>int(...)\<close> and the \<open>raise ValueError\<close> for a number that is not
  positive end in the same \<open>except ValueError\<close> clause.
\<close>

definition start_quiz_clicked :: "nlp_model \<Rightarrow> chance \<Rightarrow> app \<Rightarrow> app" where
  "start_quiz_clicked nlp ch s =
     (if length (str_strip (extracted_text_content s)) < 200
      then show_error_dialog (snd insufficient_text) (fst insufficient_text) s
      else
        (case (case int_of_str (num_questions_entry s) of
                 Inl e \<Rightarrow> Inl e
               | Inr num_q \<Rightarrow> if num_q \<le> 0 then Inl ValueError else Inr num_q) of
           Inl e \<Rightarrow> show_error_dialog (snd invalid_quiz_length) (fst invalid_quiz_length) s
         | Inr num_q \<Rightarrow>
             generate_and_display_mcq nlp ch
               (build_quiz_view
                  (s\<lparr>max_questions := num_q, quiz_score := 0, quiz_questions_asked := 0\<rparr>))))"

text \<open>
  \<open>check_quiz_answer\<close>: the radio group's value is a choice or \<open>None\<close>. A timer that is
  already pending is cancelled and a new one started, so one timer is pending after
  the call. The handler does not read the state of the submit button; whether a click
  on a disabled button reaches it is decided by the toolkit, outside the program.
\<close>

definition check_quiz_answer :: "app \<Rightarrow> app" where
  "check_quiz_answer s =
     (let s1 = s\<lparr>quiz_submit_button_disabled := True,
                  quiz_questions_asked := quiz_questions_asked s + 1\<rparr>;
          s2 = (if quiz_choices_group_value s1 = Some (quiz_correct_answer s1)
                then s1\<lparr>quiz_score := quiz_score s1 + 1,
                        quiz_feedback_label := ''Correct!'',
                        quiz_feedback_color := ''green''\<rparr>
                else s1\<lparr>quiz_feedback_label := ''Answer: '' @ quiz_correct_answer s1,
                        quiz_feedback_color := ''red''\<rparr>)
      in s2\<lparr>quiz_timer := True\<rparr>)"

subsection \<open>Extraction\<close>

definition invalid_page_numbers :: "string \<times> string" where
  "invalid_page_numbers = (''Error'', ''Please enter valid page numbers.'')"

definition invalid_range :: "pdf_document \<Rightarrow> string \<times> string" where
  "invalid_range doc =
     (''Error'', ''Page range must be 1-'' @ str_of_int (page_count doc) @ ''.'')"

definition extraction_failed :: "py_error \<Rightarrow> string \<times> string" where
  "extraction_failed ex =
     (''Error'', ''Extraction failed: '' @ (case ex of RuntimeError m \<Rightarrow> m | _ \<Rightarrow> []))"

text \<open>
  \<open>extract_text_clicked\<close>: \<open>if not self.pdf_doc\<close> is true when there is no document
  and when the document has no page (the length of a PyMuPDF document is its page
  count), and then nothing happens; both entries are converted before the range is
  tested; the range test stands before the call of \<open>extract_text_from_pdf\<close>.
\<close>

definition extract_text_clicked :: "app \<Rightarrow> app" where
  "extract_text_clicked s =
     (case pdf_doc s of
        None \<Rightarrow> s
      | Some doc \<Rightarrow>
          if page_count doc = 0 then s
          else
          (case int_of_str (start_page_entry s) of
             Inl e \<Rightarrow> show_error_dialog (snd invalid_page_numbers) (fst invalid_page_numbers) s
           | Inr start \<Rightarrow>
               (case int_of_str (end_page_entry s) of
                  Inl e \<Rightarrow>
                    show_error_dialog (snd invalid_page_numbers) (fst invalid_page_numbers) s
                | Inr end_page \<Rightarrow>
                    if \<not> (1 \<le> start \<and> start \<le> end_page \<and> end_page \<le> page_count doc)
                    then show_error_dialog (snd (invalid_range doc)) (fst (invalid_range doc)) s
                    else
                      (let s1 = s\<lparr>output_text_area :=
                                     ''Extracting pages '' @ str_of_int start @ ''-'' @
                                     str_of_int end_page @ ''...'',
                                   output_text_area_disabled := True\<rparr>
                       in case extract_text_from_pdf doc start end_page of
                            Inl ex \<Rightarrow>
                              show_error_dialog (snd (extraction_failed ex))
                                (fst (extraction_failed ex)) s1
                          | Inr full_text \<Rightarrow>
                              s1\<lparr>output_text_area := full_text,
                                 output_text_area_disabled := False,
                                 extracted_text_content := full_text,
                                 start_quiz_button_disabled := (str_strip full_text = [])\<rparr>))))"

section \<open>Concrete inputs\<close>

text \<open>
  A state in the middle of a quiz (two questions answered, one of them correctly, three
  planned, nothing selected), a document with four named entities, a document with no
  candidates at all, one outcome of the chance, and a PDF of three pages.
\<close>

definition example_app :: app where
  "example_app =
     \<lparr>pdf_doc = None, extracted_text_content = replicate 200 CHR ''a'', scores = [''1 / 2''],
      scores_file_content = Some [''1 / 2''], scores_file_writable = True,
      max_questions = 3, quiz_timer = False, quiz_score = 1, quiz_questions_asked = 2,
      quiz_correct_answer = ''Paris'', start_page_entry = ''1'', end_page_entry = ''2'',
      num_questions_entry = ''3'', output_text_area = [], output_text_area_disabled = False,
      start_quiz_button_disabled = False, highest_score_label = ''Highest Score: 1 / 2'',
      score_list_view = [''1 / 2''], quiz_score_label = ''Score: 0'',
      quiz_highest_score_label = ''High Score to Beat: 1 / 2'',
      quiz_question_label = ''Loading...'', quiz_choices_group = [],
      quiz_choices_group_value = None, quiz_feedback_label = [], quiz_feedback_color = [],
      quiz_submit_button_disabled = False, page_controls = Quiz_view, page_dialog = None\<rparr>"

definition example_doc :: spacy_doc where
  "example_doc =
     \<lparr>ents = [\<lparr>ent_text = '' Alice '', ent_label = ''PERSON''\<rparr>,
              \<lparr>ent_text = ''Paris'', ent_label = ''GPE''\<rparr>,
              \<lparr>ent_text = ''Acme'', ent_label = ''ORG''\<rparr>,
              \<lparr>ent_text = ''Monday'', ent_label = ''DATE''\<rparr>,
              \<lparr>ent_text = ''Alice'', ent_label = ''PERSON''\<rparr>,
              \<lparr>ent_text = ''three'', ent_label = ''CARDINAL''\<rparr>],
      tokens = [],
      sents = [''Paris is big.'', ''In Paris Alice met Bob near Paris on Monday.'']\<rparr>"

definition empty_doc :: spacy_doc where
  "empty_doc = \<lparr>ents = [], tokens = [], sents = []\<rparr>"

definition example_chance :: chance where
  "example_chance =
     \<lparr>set_order = (\<lambda>i. 0), choice_index = 0, sample_index = (\<lambda>i. i), shuffle_index = (\<lambda>i. 1)\<rparr>"

definition example_pdf :: pdf_document where
  "example_pdf =
     \<lparr>page_count = 3,
      page_text = (\<lambda>i. if i = 0 then Inr ''one '' else if i = 1 then Inr ''two ''
                        else if i = 2 then Inr ''three'' else Inl ''page not in document'')\<rparr>"

text \<open>
  A document whose candidates are common nouns, and a document in which the tagger has
  called four runs of punctuation nouns.
\<close>

definition noun_doc :: spacy_doc where
  "noun_doc =
     \<lparr>ents = [\<lparr>ent_text = ''Alice'', ent_label = ''PERSON''\<rparr>],
      tokens = [\<lparr>tok_text = ''river'', tok_pos = ''NOUN'', tok_is_stop = False, tok_is_punct = False\<rparr>,
                \<lparr>tok_text = ''the'', tok_pos = ''DET'', tok_is_stop = True, tok_is_punct = False\<rparr>,
                \<lparr>tok_text = ''mountain'', tok_pos = ''NOUN'', tok_is_stop = False, tok_is_punct = False\<rparr>,
                \<lparr>tok_text = ''forest'', tok_pos = ''NOUN'', tok_is_stop = False, tok_is_punct = False\<rparr>,
                \<lparr>tok_text = ''river'', tok_pos = ''NOUN'', tok_is_stop = False, tok_is_punct = False\<rparr>,
                \<lparr>tok_text = ''valley'', tok_pos = ''NOUN'', tok_is_stop = False, tok_is_punct = False\<rparr>,
                \<lparr>tok_text = ''crossed'', tok_pos = ''VERB'', tok_is_stop = False, tok_is_punct = False\<rparr>],
      sents = []\<rparr>"

definition punct_doc :: spacy_doc where
  "punct_doc =
     \<lparr>ents = [],
      tokens = [\<lparr>tok_text = ''----'', tok_pos = ''NOUN'', tok_is_stop = False, tok_is_punct = True\<rparr>,
                \<lparr>tok_text = ''****'', tok_pos = ''NOUN'', tok_is_stop = False, tok_is_punct = True\<rparr>,
                \<lparr>tok_text = ''....'', tok_pos = ''NOUN'', tok_is_stop = False, tok_is_punct = True\<rparr>,
                \<lparr>tok_text = ''____'', tok_pos = ''NOUN'', tok_is_stop = False, tok_is_punct = True\<rparr>,
                \<lparr>tok_text = ''jumped'', tok_pos = ''VERB'', tok_is_stop = False, tok_is_punct = False\<rparr>,
                \<lparr>tok_text = ''walked'', tok_pos = ''VERB'', tok_is_stop = False, tok_is_punct = False\<rparr>,
                \<lparr>tok_text = ''talked'', tok_pos = ''VERB'', tok_is_stop = False, tok_is_punct = False\<rparr>,
                \<lparr>tok_text = ''rested'', tok_pos = ''VERB'', tok_is_stop = False, tok_is_punct = False\<rparr>],
      sents = []\<rparr>"

section \<open>Properties of the score store\<close>

lemma max_from_error:
  "s \<in> set ss \<Longrightarrow> score_key s = Inl e \<Longrightarrow> \<exists>e'. max_from best k ss = Inl e'"
proof (induction ss arbitrary: best k)
  case Nil
  then show ?case by simp
next
  case (Cons a ss)
  show ?case
  proof (cases "score_key a")
    case (Inl e0)
    then show ?thesis by simp
  next
    case (Inr ka)
    with Cons.prems have "s \<in> set ss" by auto
    from Cons.IH [OF this Cons.prems(2)] Inr show ?thesis by simp
  qed
qed

lemma max_from_first_max:
  assumes "\<forall>s\<in>set ss. \<exists>k'. score_key s = Inr k'"
  shows "(max_from best k ss = Inr best \<and> (\<forall>s\<in>set ss. \<exists>k'. score_key s = Inr k' \<and> k' \<le> k)) \<or>
         (\<exists>pre r post kr. ss = pre @ r # post \<and> max_from best k ss = Inr r \<and>
            score_key r = Inr kr \<and> k < kr \<and>
            (\<forall>s\<in>set pre. \<exists>k'. score_key s = Inr k' \<and> k' < kr) \<and>
            (\<forall>s\<in>set post. \<exists>k'. score_key s = Inr k' \<and> k' \<le> kr))"
  using assms
proof (induction ss arbitrary: best k)
  case Nil
  then show ?case by simp
next
  case (Cons a ss)
  from Cons.prems obtain ka where ka: "score_key a = Inr ka" by auto
  from Cons.prems have rest: "\<forall>s\<in>set ss. \<exists>k'. score_key s = Inr k'" by simp
  show ?case
  proof (cases "ka > k")
    case True
    from Cons.IH [OF rest, of a ka] show ?thesis
    proof
      assume h: "max_from a ka ss = Inr a \<and> (\<forall>s\<in>set ss. \<exists>k'. score_key s = Inr k' \<and> k' \<le> ka)"
      have "a # ss = [] @ a # ss" by simp
      with h ka True show ?thesis by (intro disjI2 exI[of _ "[]"] exI[of _ a] exI[of _ ss] exI[of _ ka]) simp
    next
      assume "\<exists>pre r post kr. ss = pre @ r # post \<and> max_from a ka ss = Inr r \<and>
            score_key r = Inr kr \<and> ka < kr \<and>
            (\<forall>s\<in>set pre. \<exists>k'. score_key s = Inr k' \<and> k' < kr) \<and>
            (\<forall>s\<in>set post. \<exists>k'. score_key s = Inr k' \<and> k' \<le> kr)"
      then obtain pre r post kr where d: "ss = pre @ r # post" "max_from a ka ss = Inr r"
            "score_key r = Inr kr" "ka < kr"
            "\<forall>s\<in>set pre. \<exists>k'. score_key s = Inr k' \<and> k' < kr"
            "\<forall>s\<in>set post. \<exists>k'. score_key s = Inr k' \<and> k' \<le> kr" by blast
      with ka True show ?thesis
        by (intro disjI2 exI[of _ "a # pre"] exI[of _ r] exI[of _ post] exI[of _ kr]) simp
    qed
  next
    case False
    from Cons.IH [OF rest, of best k] show ?thesis
    proof
      assume h: "max_from best k ss = Inr best \<and> (\<forall>s\<in>set ss. \<exists>k'. score_key s = Inr k' \<and> k' \<le> k)"
      with ka False show ?thesis by simp
    next
      assume "\<exists>pre r post kr. ss = pre @ r # post \<and> max_from best k ss = Inr r \<and>
            score_key r = Inr kr \<and> k < kr \<and>
            (\<forall>s\<in>set pre. \<exists>k'. score_key s = Inr k' \<and> k' < kr) \<and>
            (\<forall>s\<in>set post. \<exists>k'. score_key s = Inr k' \<and> k' \<le> kr)"
      then obtain pre r post kr where d: "ss = pre @ r # post" "max_from best k ss = Inr r"
            "score_key r = Inr kr" "k < kr"
            "\<forall>s\<in>set pre. \<exists>k'. score_key s = Inr k' \<and> k' < kr"
            "\<forall>s\<in>set post. \<exists>k'. score_key s = Inr k' \<and> k' \<le> kr" by blast
      with ka False show ?thesis
        by (intro disjI2 exI[of _ "a # pre"] exI[of _ r] exI[of _ post] exI[of _ kr]) simp
    qed
  qed
qed


lemma int_of_str_raises: "int_of_str s = Inl e \<Longrightarrow> e = ValueError"
  by (auto simp: int_of_str_def Let_def split: list.splits option.splits if_splits)

lemma filter_dropWhile_other:
  "\<forall>x. Q x \<longrightarrow> \<not> P x \<Longrightarrow> filter P (dropWhile Q xs) = filter P xs"
  by (induction xs) auto

lemma int_space_no_digit: "int_space c \<Longrightarrow> \<not> isdigit c"
  by (auto simp: int_space_def isdigit_def)

text \<open>
  The two places where \<open>int\<close> is stricter than a reading of the digits: more than 4300
  digits are refused whatever else the string holds, and a separator character is not
  skipped.
\<close>

lemma int_of_str_digit_limit:
  assumes "max_str_digits < length (filter isdigit s)"
  shows "int_of_str s = Inl ValueError"
proof -
  define t where "t = rev (dropWhile int_space (rev (dropWhile int_space s)))"
  have "filter isdigit t = rev (filter isdigit (dropWhile int_space (rev (dropWhile int_space s))))"
    by (simp add: t_def rev_filter)
  also have "\<dots> = rev (filter isdigit (rev (dropWhile int_space s)))"
    by (simp add: filter_dropWhile_other int_space_no_digit)
  also have "\<dots> = filter isdigit (dropWhile int_space s)"
    by (simp add: rev_filter)
  also have "\<dots> = filter isdigit s"
    by (simp add: filter_dropWhile_other int_space_no_digit)
  finally have f: "filter isdigit t = filter isdigit s" .
  show ?thesis
  proof (cases t)
    case Nil
    then show ?thesis by (simp add: int_of_str_def t_def [symmetric])
  next
    case (Cons c cs)
    define body where "body = (if c = CHR ''-'' \<or> c = CHR ''+'' then cs else c # cs)"
    have sign: "\<not> isdigit CHR ''-''" "\<not> isdigit CHR ''+''" by (simp_all add: isdigit_def)
    have "filter isdigit body = filter isdigit t"
      using sign by (auto simp: Cons body_def)
    with f assms have lim: "max_str_digits < length (filter isdigit body)" by simp
    have "int_of_str s =
        (case parse_digits body of
           None \<Rightarrow> Inl ValueError
         | Some n \<Rightarrow>
             if max_str_digits < length (filter isdigit body) then Inl ValueError
             else Inr (if c = CHR ''-'' then - int n else int n))"
      by (simp only: int_of_str_def t_def [symmetric] Cons list.case Let_def body_def)
    with lim show ?thesis by (simp split: option.splits)
  qed
qed

lemma int_of_str_long: "int_of_str (replicate 4301 CHR ''1'') = Inl ValueError"
  by (rule int_of_str_digit_limit) (simp add: max_str_digits_def isdigit_def)

lemma int_of_str_separator:
  "int_of_str [CHR 0x1C, CHR ''3''] = Inl ValueError"
  "int_of_str [CHR 0x1C, CHR ''2''] = Inl ValueError"
  "str_strip [CHR 0x1C, CHR ''3''] = ''3''"
  "int_of_str [CHR 0xA0, CHR ''3'', CHR 0x0A] = Inr 3"
  by code_simp+

lemma score_key_raises: "score_key s = Inl e \<Longrightarrow> e = ValueError \<or> e = IndexError"
  by (auto simp: score_key_def split: list.splits dest: int_of_str_raises)

lemma split_on_nonempty: "split_on sep s \<noteq> []"
  by (induction s) (auto split: list.splits)

lemma split_on_first:
  "sep \<notin> set p \<Longrightarrow> split_on sep (p @ sep # r) = p # split_on sep r"
proof (induction p)
  case Nil
  then show ?case using split_on_nonempty [of sep r] by (simp split: list.splits)
next
  case (Cons c p)
  then show ?case by auto
qed

lemma isspace_no_digit: "isspace c \<Longrightarrow> \<not> isdigit c"
  by (auto simp: isspace_def isdigit_def)

lemma filter_isdigit_str_strip: "filter isdigit (str_strip p) = filter isdigit p"
proof -
  have "filter isdigit (str_strip p) =
      rev (filter isdigit (dropWhile isspace (rev (dropWhile isspace p))))"
    by (simp add: str_strip_def rev_filter)
  also have "\<dots> = rev (filter isdigit (rev (dropWhile isspace p)))"
    by (simp add: filter_dropWhile_other isspace_no_digit)
  also have "\<dots> = filter isdigit (dropWhile isspace p)"
    by (simp add: rev_filter)
  also have "\<dots> = filter isdigit p"
    by (simp add: filter_dropWhile_other isspace_no_digit)
  finally show ?thesis .
qed

text \<open>A record with more than 4300 digits before its first \<open>'/'\<close> is unparseable.\<close>

lemma score_key_digit_limit:
  assumes "CHR ''/'' \<notin> set p" "max_str_digits < length (filter isdigit p)"
  shows "score_key (p @ CHR ''/'' # r) = Inl ValueError"
proof -
  from assms(2) have "max_str_digits < length (filter isdigit (str_strip p))"
    by (simp add: filter_isdigit_str_strip)
  then have "int_of_str (str_strip p) = Inl ValueError" by (rule int_of_str_digit_limit)
  with assms(1) show ?thesis by (simp add: score_key_def split_on_first)
qed

lemma score_key_long:
  "score_key (replicate 4301 CHR ''1'' @ CHR ''/'' # ''5'') = Inl ValueError"
  by (rule score_key_digit_limit) (simp_all add: max_str_digits_def isdigit_def)

lemma score_key_examples:
  "score_key ''2 / 5'' = Inr 2" "score_key ''4 / 5'' = Inr 4" "score_key ''1 / 5'' = Inr 1"
  "score_key ''abc'' = Inl ValueError"
  by code_simp+

text \<open>
  Claim C8, as the code has it. \<open>get_highest_score\<close> returns \<open>"N/A"\<close> when the store is
  empty and also as soon as one record has no integer before its first \<open>'/'\<close>: the key
  function raises on that record and the \<open>except\<close> clause answers for the whole
  store. When every record parses, the result is the first record of the store whose
  parsed "correct" component is maximal: every record before it has a strictly smaller
  component, every record after it a component that is not greater. Over the store
  \<open>["2 / 5", "4 / 5", "1 / 5"]\<close> the result is \<open>"4 / 5"\<close>.
\<close>

theorem get_highest_score_first_max:
  "(store = [] \<longrightarrow> get_highest_score store = ''N/A'') \<and>
   ((\<exists>s\<in>set store. \<exists>e. score_key s = Inl e) \<longrightarrow> get_highest_score store = ''N/A'') \<and>
   (store \<noteq> [] \<and> (\<forall>s\<in>set store. \<exists>k. score_key s = Inr k) \<longrightarrow>
      (\<exists>pre r post kr. store = pre @ r # post \<and> get_highest_score store = r \<and>
          score_key r = Inr kr \<and>
          (\<forall>s\<in>set pre. \<exists>k'. score_key s = Inr k' \<and> k' < kr) \<and>
          (\<forall>s\<in>set post. \<exists>k'. score_key s = Inr k' \<and> k' \<le> kr))) \<and>
   get_highest_score [''2 / 5'', ''4 / 5'', ''1 / 5''] = ''4 / 5''"
proof (intro conjI impI)
  assume "store = []"
  then show "get_highest_score store = ''N/A''" by (simp add: get_highest_score_def)
next
  assume "\<exists>s\<in>set store. \<exists>e. score_key s = Inl e"
  then obtain s e where s: "s \<in> set store" "score_key s = Inl e" by blast
  then obtain a ss where sc: "store = a # ss" by (cases store) auto
  have "\<exists>e'. max_by_key store = Inl e'"
  proof (cases "score_key a")
    case (Inl e0)
    with sc show ?thesis by (simp add: max_by_key_def)
  next
    case (Inr ka)
    with s sc have "s \<in> set ss" by auto
    from max_from_error [OF this s(2), of a ka] Inr sc show ?thesis
      by (simp add: max_by_key_def)
  qed
  then obtain e' where "max_by_key store = Inl e'" by blast
  then show "get_highest_score store = ''N/A''"
    by (cases e') (simp_all add: get_highest_score_def)
next
  assume h: "store \<noteq> [] \<and> (\<forall>s\<in>set store. \<exists>k. score_key s = Inr k)"
  then obtain a ss where sc: "store = a # ss" by (cases store) auto
  with h obtain ka where ka: "score_key a = Inr ka" by auto
  from h sc have rest: "\<forall>s\<in>set ss. \<exists>k'. score_key s = Inr k'" by simp
  have g: "get_highest_score store = (case max_from a ka ss of Inl _ \<Rightarrow> ''N/A'' | Inr r \<Rightarrow> r)"
    using sc ka by (simp add: get_highest_score_def max_by_key_def split: sum.splits py_error.splits)
  from max_from_first_max [OF rest, of a ka]
  show "\<exists>pre r post kr. store = pre @ r # post \<and> get_highest_score store = r \<and>
          score_key r = Inr kr \<and>
          (\<forall>s\<in>set pre. \<exists>k'. score_key s = Inr k' \<and> k' < kr) \<and>
          (\<forall>s\<in>set post. \<exists>k'. score_key s = Inr k' \<and> k' \<le> kr)"
  proof
    assume "max_from a ka ss = Inr a \<and> (\<forall>s\<in>set ss. \<exists>k'. score_key s = Inr k' \<and> k' \<le> ka)"
    with g sc ka show ?thesis
      by (intro exI[of _ "[]"] exI[of _ a] exI[of _ ss] exI[of _ ka]) simp
  next
    assume "\<exists>pre r post kr. ss = pre @ r # post \<and> max_from a ka ss = Inr r \<and>
            score_key r = Inr kr \<and> ka < kr \<and>
            (\<forall>s\<in>set pre. \<exists>k'. score_key s = Inr k' \<and> k' < kr) \<and>
            (\<forall>s\<in>set post. \<exists>k'. score_key s = Inr k' \<and> k' \<le> kr)"
    then obtain pre r post kr where d: "ss = pre @ r # post" "max_from a ka ss = Inr r"
            "score_key r = Inr kr" "ka < kr"
            "\<forall>s\<in>set pre. \<exists>k'. score_key s = Inr k' \<and> k' < kr"
            "\<forall>s\<in>set post. \<exists>k'. score_key s = Inr k' \<and> k' \<le> kr" by blast
    with g sc ka show ?thesis
      by (intro exI[of _ "a # pre"] exI[of _ r] exI[of _ post] exI[of _ kr]) simp
  qed
next
  show "get_highest_score [''2 / 5'', ''4 / 5'', ''1 / 5''] = ''4 / 5''" by code_simp
qed

text \<open>
  The three situations of C8 at concrete stores; a record of 4301 digits is one of the
  unparseable ones.
\<close>

theorem get_highest_score_first_max_witness:
  "get_highest_score [] = ''N/A'' \<and>
   score_key ''abc'' = Inl ValueError \<and>
   get_highest_score [''2 / 5'', ''abc''] = ''N/A'' \<and>
   score_key (replicate 4301 CHR ''1'' @ CHR ''/'' # ''5'') = Inl ValueError \<and>
   get_highest_score [''2 / 5'', replicate 4301 CHR ''1'' @ CHR ''/'' # ''5''] = ''N/A'' \<and>
   score_key ''2 / 5'' = Inr 2 \<and> score_key ''4 / 5'' = Inr 4 \<and> score_key ''1 / 5'' = Inr 1 \<and>
   (\<exists>pre r post kr. [''2 / 5'', ''4 / 5'', ''1 / 5''] = pre @ r # post \<and>
       get_highest_score [''2 / 5'', ''4 / 5'', ''1 / 5''] = r \<and> score_key r = Inr kr \<and>
       (\<forall>s\<in>set pre. \<exists>k'. score_key s = Inr k' \<and> k' < kr) \<and>
       (\<forall>s\<in>set post. \<exists>k'. score_key s = Inr k' \<and> k' \<le> kr))"
proof -
  note ex = score_key_examples
  have a: "get_highest_score [] = ''N/A''"
    using get_highest_score_first_max [of "[]"] by simp
  have b: "get_highest_score [''2 / 5'', ''abc''] = ''N/A''"
    using get_highest_score_first_max [of "[''2 / 5'', ''abc'']"] ex by simp
  have l: "get_highest_score [''2 / 5'', replicate 4301 CHR ''1'' @ CHR ''/'' # ''5''] = ''N/A''"
    using get_highest_score_first_max [of "[''2 / 5'', replicate 4301 CHR ''1'' @ CHR ''/'' # ''5'']"]
      score_key_long
    by simp
  have c: "\<exists>pre r post kr. [''2 / 5'', ''4 / 5'', ''1 / 5''] = pre @ r # post \<and>
       get_highest_score [''2 / 5'', ''4 / 5'', ''1 / 5''] = r \<and> score_key r = Inr kr \<and>
       (\<forall>s\<in>set pre. \<exists>k'. score_key s = Inr k' \<and> k' < kr) \<and>
       (\<forall>s\<in>set post. \<exists>k'. score_key s = Inr k' \<and> k' \<le> kr)"
  proof -
    have h: "[''2 / 5'', ''4 / 5'', ''1 / 5''] \<noteq> [] \<and>
        (\<forall>s\<in>set [''2 / 5'', ''4 / 5'', ''1 / 5'']. \<exists>k. score_key s = Inr k)"
      using ex by simp
    from get_highest_score_first_max [of "[''2 / 5'', ''4 / 5'', ''1 / 5'']"] h
    show ?thesis by blast
  qed
  from a b c l ex score_key_long show ?thesis by blast
qed

text \<open>
  Claim C8 as the specification words it says that \<open>"N/A"\<close> comes out only for an
  empty store or a store of unparseable records. The store \<open>["2 / 5", "abc"]\<close> has a
  parseable record and still yields \<open>"N/A"\<close>.
\<close>

theorem get_highest_score_counterexample:
  "get_highest_score [''2 / 5'', ''abc''] = ''N/A'' \<and> score_key ''2 / 5'' = Inr 2"
  by code_simp

section \<open>Properties of the quiz session\<close>


lemma example_app_text: "length (str_strip (extracted_text_content example_app)) = 200"
  by code_simp


lemma example_doc_question:
  "generate_quiz_question (\<lambda>t. Inr example_doc) example_chance (extracted_text_content example_app) =
     Some \<lparr>question = ''In _____ Alice met Bob near _____ on Monday.'',
           choices = [''Monday'', ''Acme'', ''Paris'', ''Alice''], answer = ''Paris''\<rparr>"
  by code_simp

subsection \<open>Submitting without a selection\<close>

text \<open>
  Claim C10. When \<open>check_quiz_answer\<close> runs while the radio group's value is \<open>None\<close>, the
  submission counts as an answered question: \<open>quiz_questions_asked\<close> goes up by one,
  \<open>quiz_score\<close> stays, and the timer for the next question is started. The resulting
  state is the one a wrong choice \<open>w\<close> gives, apart from the selected value itself. The
  handler has no test of the selection.
\<close>

theorem check_quiz_answer_without_selection:
  assumes "quiz_choices_group_value s = None"
  shows "quiz_questions_asked (check_quiz_answer s) = quiz_questions_asked s + 1 \<and>
         quiz_score (check_quiz_answer s) = quiz_score s \<and>
         quiz_timer (check_quiz_answer s) \<and>
         (\<forall>w. w \<noteq> quiz_correct_answer s \<longrightarrow>
            check_quiz_answer (s\<lparr>quiz_choices_group_value := Some w\<rparr>) =
            (check_quiz_answer s)\<lparr>quiz_choices_group_value := Some w\<rparr>)"
  using assms by (simp add: check_quiz_answer_def Let_def)

text \<open>C10 at the example state, where nothing is selected.\<close>

theorem check_quiz_answer_without_selection_witness:
  "quiz_choices_group_value example_app = None \<and>
   quiz_questions_asked example_app = 2 \<and> quiz_score example_app = 1 \<and>
   quiz_questions_asked (check_quiz_answer example_app) = 3 \<and>
   quiz_score (check_quiz_answer example_app) = 1 \<and>
   quiz_timer (check_quiz_answer example_app) \<and>
   check_quiz_answer (example_app\<lparr>quiz_choices_group_value := Some ''Rome''\<rparr>) =
     (check_quiz_answer example_app)\<lparr>quiz_choices_group_value := Some ''Rome''\<rparr>"
proof -
  have h: "quiz_choices_group_value example_app = None" by (simp add: example_app_def)
  have w: "''Rome'' \<noteq> quiz_correct_answer example_app" by (simp add: example_app_def)
  from check_quiz_answer_without_selection [OF h] w h show ?thesis
    by (simp add: example_app_def)
qed

subsection \<open>The score record at the end of a quiz\<close>

lemma score_record_nonempty: "a @ '' / '' @ b \<noteq> []"
  by simp



lemma end_quiz_clicked_view:
  "page_controls (end_quiz_clicked s) = Main_view" "\<not> quiz_timer (end_quiz_clicked s)"
  "quiz_score (end_quiz_clicked s) = quiz_score s"
  "quiz_questions_asked (end_quiz_clicked s) = quiz_questions_asked s"
  by (simp_all add: end_quiz_clicked_def handle_quiz_end_def build_main_view_def
      update_score_display_def save_scores_def)





subsection \<open>Starting a quiz\<close>

lemma generate_and_display_mcq_counters:
  "quiz_score (generate_and_display_mcq nlp ch s) = quiz_score s"
  "quiz_questions_asked (generate_and_display_mcq nlp ch s) = quiz_questions_asked s"
  "max_questions (generate_and_display_mcq nlp ch s) = max_questions s"
  by (simp_all add: generate_and_display_mcq_def Let_def end_quiz_clicked_def handle_quiz_end_def
      build_main_view_def update_score_display_def save_scores_def show_error_dialog_def
      split: option.splits)

text \<open>
  Claim C5. \<open>start_quiz_clicked\<close> tests the text first: with fewer than 200 characters
  after stripping, the only effect is the dialog \<open>insufficient_text\<close>. When the entry is
  not the decimal form of a positive integer, the only effect is a dialog as well: the
  dialog \<open>invalid_quiz_length\<close>, or \<open>insufficient_text\<close> when the text is too short too.
  In both failures every attribute keeps its value: score and question count are not
  reset, \<open>max_questions\<close> is not set, the view is not rebuilt, no question is generated.
  When both preconditions hold, \<open>max_questions\<close> is set, score and question count are
  set to 0, the quiz view is built and \<open>generate_and_display_mcq\<close> runs at once; it
  leaves the three counters as they are.
\<close>

theorem start_quiz_clicked_preconditions:
  "(length (str_strip (extracted_text_content s)) < 200 \<longrightarrow>
      start_quiz_clicked nlp ch s = s\<lparr>page_dialog := Some insufficient_text\<rparr>) \<and>
   (\<not> (\<exists>n. int_of_str (num_questions_entry s) = Inr n \<and> 0 < n) \<longrightarrow>
      start_quiz_clicked nlp ch s =
        s\<lparr>page_dialog := Some (if length (str_strip (extracted_text_content s)) < 200
                                then insufficient_text else invalid_quiz_length)\<rparr>) \<and>
   (200 \<le> length (str_strip (extracted_text_content s)) \<and>
    int_of_str (num_questions_entry s) = Inr n \<and> 0 < n \<longrightarrow>
      start_quiz_clicked nlp ch s =
        generate_and_display_mcq nlp ch
          (build_quiz_view (s\<lparr>max_questions := n, quiz_score := 0, quiz_questions_asked := 0\<rparr>)) \<and>
      quiz_score (start_quiz_clicked nlp ch s) = 0 \<and>
      quiz_questions_asked (start_quiz_clicked nlp ch s) = 0 \<and>
      max_questions (start_quiz_clicked nlp ch s) = n)"
proof (intro conjI impI)
  assume "length (str_strip (extracted_text_content s)) < 200"
  then show "start_quiz_clicked nlp ch s = s\<lparr>page_dialog := Some insufficient_text\<rparr>"
    by (simp add: start_quiz_clicked_def show_error_dialog_def)
next
  assume bad: "\<not> (\<exists>n. int_of_str (num_questions_entry s) = Inr n \<and> 0 < n)"
  show "start_quiz_clicked nlp ch s =
        s\<lparr>page_dialog := Some (if length (str_strip (extracted_text_content s)) < 200
                                then insufficient_text else invalid_quiz_length)\<rparr>"
  proof (cases "int_of_str (num_questions_entry s)")
    case (Inl e)
    then show ?thesis by (simp add: start_quiz_clicked_def show_error_dialog_def)
  next
    case (Inr m)
    with bad have "m \<le> 0" by auto
    with Inr show ?thesis by (simp add: start_quiz_clicked_def show_error_dialog_def)
  qed
next
  assume ok: "200 \<le> length (str_strip (extracted_text_content s)) \<and>
    int_of_str (num_questions_entry s) = Inr n \<and> 0 < n"
  then show st: "start_quiz_clicked nlp ch s =
        generate_and_display_mcq nlp ch
          (build_quiz_view (s\<lparr>max_questions := n, quiz_score := 0, quiz_questions_asked := 0\<rparr>))"
    by (simp add: start_quiz_clicked_def)
  show "quiz_score (start_quiz_clicked nlp ch s) = 0"
    unfolding st generate_and_display_mcq_counters by (simp add: build_quiz_view_def)
  show "quiz_questions_asked (start_quiz_clicked nlp ch s) = 0"
    unfolding st generate_and_display_mcq_counters by (simp add: build_quiz_view_def)
  show "max_questions (start_quiz_clicked nlp ch s) = n"
    unfolding st generate_and_display_mcq_counters by (simp add: build_quiz_view_def)
qed

lemma quiz_length_examples:
  "int_of_str ''3'' = Inr 3" "int_of_str ''0'' = Inr 0" "int_of_str ''five'' = Inl ValueError"
  "int_of_str ''-2'' = Inr (- 2)" "int_of_str '' 3 '' = Inr 3"
  by code_simp+

lemma short_text: "length (str_strip ''short'') = 5"
  by code_simp

text \<open>
  C5 at the example state: with the text \<open>"short"\<close>; with the quiz lengths \<open>"0"\<close>,
  \<open>"five"\<close>, a \<open>3\<close> behind the separator character 28, and 4301 digits, all of which
  the conversion or the test for a positive number refuses; and with 200 characters
  and the quiz length \<open>"3"\<close>.
\<close>

theorem start_quiz_clicked_preconditions_witness:
  "length (str_strip (extracted_text_content (example_app\<lparr>extracted_text_content := ''short''\<rparr>))) < 200 \<and>
   start_quiz_clicked (\<lambda>t. Inr example_doc) example_chance
       (example_app\<lparr>extracted_text_content := ''short''\<rparr>) =
     example_app\<lparr>extracted_text_content := ''short'', page_dialog := Some insufficient_text\<rparr> \<and>
   int_of_str (num_questions_entry (example_app\<lparr>num_questions_entry := ''0''\<rparr>)) = Inr 0 \<and>
   start_quiz_clicked (\<lambda>t. Inr example_doc) example_chance
       (example_app\<lparr>num_questions_entry := ''0''\<rparr>) =
     example_app\<lparr>num_questions_entry := ''0'', page_dialog := Some invalid_quiz_length\<rparr> \<and>
   int_of_str (num_questions_entry (example_app\<lparr>num_questions_entry := ''five''\<rparr>)) = Inl ValueError \<and>
   start_quiz_clicked (\<lambda>t. Inr example_doc) example_chance
       (example_app\<lparr>num_questions_entry := ''five''\<rparr>) =
     example_app\<lparr>num_questions_entry := ''five'', page_dialog := Some invalid_quiz_length\<rparr> \<and>
   int_of_str [CHR 0x1C, CHR ''3''] = Inl ValueError \<and>
   start_quiz_clicked (\<lambda>t. Inr example_doc) example_chance
       (example_app\<lparr>num_questions_entry := [CHR 0x1C, CHR ''3'']\<rparr>) =
     example_app\<lparr>num_questions_entry := [CHR 0x1C, CHR ''3''],
                  page_dialog := Some invalid_quiz_length\<rparr> \<and>
   int_of_str (replicate 4301 CHR ''1'') = Inl ValueError \<and>
   start_quiz_clicked (\<lambda>t. Inr example_doc) example_chance
       (example_app\<lparr>num_questions_entry := replicate 4301 CHR ''1''\<rparr>) =
     example_app\<lparr>num_questions_entry := replicate 4301 CHR ''1'',
                  page_dialog := Some invalid_quiz_length\<rparr> \<and>
   200 \<le> length (str_strip (extracted_text_content example_app)) \<and>
   int_of_str (num_questions_entry example_app) = Inr 3 \<and>
   quiz_score example_app = 1 \<and> quiz_questions_asked example_app = 2 \<and>
   quiz_score (start_quiz_clicked (\<lambda>t. Inr example_doc) example_chance example_app) = 0 \<and>
   quiz_questions_asked (start_quiz_clicked (\<lambda>t. Inr example_doc) example_chance example_app) = 0 \<and>
   max_questions (start_quiz_clicked (\<lambda>t. Inr example_doc) example_chance example_app) = 3"
proof -
  have t: "length (str_strip (extracted_text_content example_app)) = 200"
    by (rule example_app_text)
  have e: "extracted_text_content (example_app\<lparr>num_questions_entry := v\<rparr>) =
      extracted_text_content example_app" for v by simp
  have a: "start_quiz_clicked (\<lambda>t. Inr example_doc) example_chance
       (example_app\<lparr>extracted_text_content := ''short''\<rparr>) =
     example_app\<lparr>extracted_text_content := ''short'', page_dialog := Some insufficient_text\<rparr>"
    using start_quiz_clicked_preconditions
      [of "example_app\<lparr>extracted_text_content := ''short''\<rparr>" "\<lambda>t. Inr example_doc" example_chance]
    by (simp add: short_text)
  have b: "start_quiz_clicked (\<lambda>t. Inr example_doc) example_chance
       (example_app\<lparr>num_questions_entry := ''0''\<rparr>) =
     example_app\<lparr>num_questions_entry := ''0'', page_dialog := Some invalid_quiz_length\<rparr>"
    using start_quiz_clicked_preconditions
      [of "example_app\<lparr>num_questions_entry := ''0''\<rparr>" "\<lambda>t. Inr example_doc" example_chance]
    by (simp add: quiz_length_examples t e)
  have c: "start_quiz_clicked (\<lambda>t. Inr example_doc) example_chance
       (example_app\<lparr>num_questions_entry := ''five''\<rparr>) =
     example_app\<lparr>num_questions_entry := ''five'', page_dialog := Some invalid_quiz_length\<rparr>"
    using start_quiz_clicked_preconditions
      [of "example_app\<lparr>num_questions_entry := ''five''\<rparr>" "\<lambda>t. Inr example_doc" example_chance]
    by (simp add: quiz_length_examples t e)
  have c2: "start_quiz_clicked (\<lambda>t. Inr example_doc) example_chance
       (example_app\<lparr>num_questions_entry := [CHR 0x1C, CHR ''3'']\<rparr>) =
     example_app\<lparr>num_questions_entry := [CHR 0x1C, CHR ''3''],
                  page_dialog := Some invalid_quiz_length\<rparr>"
    using start_quiz_clicked_preconditions
      [of "example_app\<lparr>num_questions_entry := [CHR 0x1C, CHR ''3'']\<rparr>" "\<lambda>t. Inr example_doc"
        example_chance]
    by (simp add: int_of_str_separator t e)
  have c3: "start_quiz_clicked (\<lambda>t. Inr example_doc) example_chance
       (example_app\<lparr>num_questions_entry := replicate 4301 CHR ''1''\<rparr>) =
     example_app\<lparr>num_questions_entry := replicate 4301 CHR ''1'',
                  page_dialog := Some invalid_quiz_length\<rparr>"
    using start_quiz_clicked_preconditions
      [of "example_app\<lparr>num_questions_entry := replicate 4301 CHR ''1''\<rparr>" "\<lambda>t. Inr example_doc"
        example_chance]
    by (simp add: int_of_str_long t e)
  have n: "num_questions_entry example_app = ''3''" by (simp add: example_app_def)
  have d: "quiz_score (start_quiz_clicked (\<lambda>t. Inr example_doc) example_chance example_app) = 0 \<and>
      quiz_questions_asked (start_quiz_clicked (\<lambda>t. Inr example_doc) example_chance example_app) = 0 \<and>
      max_questions (start_quiz_clicked (\<lambda>t. Inr example_doc) example_chance example_app) = 3"
  proof -
    have h: "200 \<le> length (str_strip (extracted_text_content example_app)) \<and>
        int_of_str (num_questions_entry example_app) = Inr 3 \<and> (0::int) < 3"
      by (simp add: quiz_length_examples t n)
    from start_quiz_clicked_preconditions
      [of example_app "\<lambda>t. Inr example_doc" example_chance 3] h
    show ?thesis by blast
  qed
  have f: "quiz_score example_app = 1 \<and> quiz_questions_asked example_app = 2"
    by (simp add: example_app_def)
  from a b c c2 c3 d f t n show ?thesis
    by (simp add: quiz_length_examples short_text int_of_str_separator int_of_str_long)
qed

subsection \<open>Submitting twice\<close>

text \<open>
  Claim C6, as the code has it. \<open>check_quiz_answer\<close> is not idempotent: every call adds
  one to \<open>quiz_questions_asked\<close> and, when the selected choice is the correct answer,
  one to \<open>quiz_score\<close>, so a second call before the next question adds a second time.
  What the handler does against a double submission is to disable the submit button:
  the button is disabled after every call, and \<open>generate_and_display_mcq\<close> enables it
  again when the quiz goes on to a next question.
\<close>

theorem check_quiz_answer_counts_every_call:
  "quiz_questions_asked (check_quiz_answer s) = quiz_questions_asked s + 1 \<and>
   quiz_score (check_quiz_answer s) =
     quiz_score s + (if quiz_choices_group_value s = Some (quiz_correct_answer s) then 1 else 0) \<and>
   quiz_questions_asked (check_quiz_answer (check_quiz_answer s)) = quiz_questions_asked s + 2 \<and>
   quiz_score (check_quiz_answer (check_quiz_answer s)) =
     quiz_score s + (if quiz_choices_group_value s = Some (quiz_correct_answer s) then 2 else 0) \<and>
   quiz_submit_button_disabled (check_quiz_answer s) \<and>
   quiz_submit_button_disabled (check_quiz_answer (check_quiz_answer s)) \<and>
   (quiz_questions_asked s < max_questions s \<longrightarrow>
      \<not> quiz_submit_button_disabled (generate_and_display_mcq nlp ch s))"
proof -
  have a: "quiz_questions_asked (check_quiz_answer s) = quiz_questions_asked s + 1" for s
    by (simp add: check_quiz_answer_def Let_def)
  have b: "quiz_score (check_quiz_answer s) =
     quiz_score s + (if quiz_choices_group_value s = Some (quiz_correct_answer s) then 1 else 0)"
    for s
    by (simp add: check_quiz_answer_def Let_def)
  have k: "quiz_choices_group_value (check_quiz_answer s) = quiz_choices_group_value s"
    "quiz_correct_answer (check_quiz_answer s) = quiz_correct_answer s" for s
    by (simp_all add: check_quiz_answer_def Let_def)
  have d: "quiz_submit_button_disabled (check_quiz_answer s)" for s
    by (simp add: check_quiz_answer_def Let_def)
  have a2: "quiz_questions_asked (check_quiz_answer (check_quiz_answer s)) =
      quiz_questions_asked s + 2"
    by (simp add: a)
  have b2: "quiz_score (check_quiz_answer (check_quiz_answer s)) =
     quiz_score s + (if quiz_choices_group_value s = Some (quiz_correct_answer s) then 2 else 0)"
    by (simp add: b k)
  have g: "quiz_questions_asked s < max_questions s \<longrightarrow>
      \<not> quiz_submit_button_disabled (generate_and_display_mcq nlp ch s)"
    by (simp add: generate_and_display_mcq_def Let_def end_quiz_clicked_def handle_quiz_end_def
        build_main_view_def update_score_display_def save_scores_def show_error_dialog_def
        split: option.splits)
  from a [of s] b [of s] a2 b2 d [of s] d [of "check_quiz_answer s"] g show ?thesis by blast
qed

text \<open>
  C6 at the example state, first with nothing selected, then with the correct answer
  selected; the example quiz has not reached its goal.
\<close>

theorem check_quiz_answer_counts_every_call_witness:
  "quiz_questions_asked example_app = 2 \<and> quiz_score example_app = 1 \<and>
   quiz_questions_asked (check_quiz_answer (check_quiz_answer example_app)) = 4 \<and>
   quiz_score (check_quiz_answer (check_quiz_answer example_app)) = 1 \<and>
   quiz_score (check_quiz_answer (check_quiz_answer
       (example_app\<lparr>quiz_choices_group_value := Some ''Paris''\<rparr>))) = 3 \<and>
   quiz_submit_button_disabled (check_quiz_answer example_app) \<and>
   quiz_questions_asked example_app < max_questions example_app \<and>
   \<not> quiz_submit_button_disabled
       (generate_and_display_mcq (\<lambda>t. Inr example_doc) example_chance example_app)"
proof -
  have h: "quiz_questions_asked example_app = 2" "quiz_score example_app = 1"
    "quiz_choices_group_value example_app = None" "quiz_correct_answer example_app = ''Paris''"
    "quiz_questions_asked example_app < max_questions example_app"
    by (simp_all add: example_app_def)
  from check_quiz_answer_counts_every_call [of example_app "\<lambda>t. Inr example_doc" example_chance] h
  have u: "quiz_questions_asked (check_quiz_answer (check_quiz_answer example_app)) = 4 \<and>
      quiz_score (check_quiz_answer (check_quiz_answer example_app)) = 1 \<and>
      quiz_submit_button_disabled (check_quiz_answer example_app) \<and>
      \<not> quiz_submit_button_disabled
          (generate_and_display_mcq (\<lambda>t. Inr example_doc) example_chance example_app)"
    by simp
  from check_quiz_answer_counts_every_call
      [of "example_app\<lparr>quiz_choices_group_value := Some ''Paris''\<rparr>"] h
  have v: "quiz_score (check_quiz_answer (check_quiz_answer
       (example_app\<lparr>quiz_choices_group_value := Some ''Paris''\<rparr>))) = 3"
    by simp
  from u v h show ?thesis by simp
qed

text \<open>
  Claim C6 as the specification words it makes \<open>check_quiz_answer\<close> idempotent: a second
  call before the next question would add nothing. At the example state two calls in a
  row count two questions, and two points when the selected choice is the correct
  answer.
\<close>

theorem check_quiz_answer_twice_counterexample:
  "quiz_questions_asked example_app = 2 \<and>
   quiz_questions_asked (check_quiz_answer example_app) = 3 \<and>
   quiz_questions_asked (check_quiz_answer (check_quiz_answer example_app)) = 4 \<and>
   quiz_score (example_app\<lparr>quiz_choices_group_value := Some ''Paris''\<rparr>) = 1 \<and>
   quiz_score (check_quiz_answer (example_app\<lparr>quiz_choices_group_value := Some ''Paris''\<rparr>)) = 2 \<and>
   quiz_score (check_quiz_answer (check_quiz_answer
       (example_app\<lparr>quiz_choices_group_value := Some ''Paris''\<rparr>))) = 3"
  by (simp add: check_quiz_answer_def Let_def example_app_def)

section \<open>Properties of the text extractor\<close>

lemma page_texts_readable:
  "\<forall>p\<in>set ps. \<exists>t. page_text doc (p - 1) = Inr t \<Longrightarrow>
     page_texts doc ps = Inr (map (\<lambda>p. projr (page_text doc (p - 1))) ps)"
  by (induction ps) auto

text \<open>
  Claim C9, as the code has it. For \<open>1 \<le> start \<le> end \<le> page_count\<close> and readable
  pages, \<open>extract_text_from_pdf\<close> returns the texts of the pages \<open>start\<close> to \<open>end\<close>
  (indices \<open>start - 1\<close> to \<open>end - 1\<close>), concatenated in this order with nothing between
  them. The range is tested by the caller: for page numbers outside
  \<open>1 \<le> start \<le> end \<le> page_count\<close>, \<open>extract_text_clicked\<close> extracts nothing; it shows
  the range error and changes nothing else (for a document without pages it does
  nothing at all). For a valid range it stores the concatenation as the extracted
  text. An entry that \<open>int\<close> refuses gives the error about page numbers instead.
\<close>

theorem extract_text_in_range:
  "(1 \<le> start \<and> start \<le> end_page \<and> end_page \<le> page_count doc \<and>
    (\<forall>p\<in>{start..end_page}. \<exists>t. page_text doc (p - 1) = Inr t) \<longrightarrow>
      extract_text_from_pdf doc start end_page =
        Inr (concat (map (\<lambda>p. projr (page_text doc (p - 1))) [start..end_page]))) \<and>
   (pdf_doc s = Some doc \<and> int_of_str (start_page_entry s) = Inr start \<and>
    int_of_str (end_page_entry s) = Inr end_page \<longrightarrow>
      (if 1 \<le> start \<and> start \<le> end_page \<and> end_page \<le> page_count doc
       then ((\<forall>p\<in>{start..end_page}. \<exists>t. page_text doc (p - 1) = Inr t) \<longrightarrow>
               extracted_text_content (extract_text_clicked s) =
                 concat (map (\<lambda>p. projr (page_text doc (p - 1))) [start..end_page]) \<and>
               page_dialog (extract_text_clicked s) = page_dialog s)
       else extracted_text_content (extract_text_clicked s) = extracted_text_content s \<and>
            (page_count doc \<noteq> 0 \<longrightarrow>
               extract_text_clicked s = s\<lparr>page_dialog := Some (invalid_range doc)\<rparr>))) \<and>
   (pdf_doc s = Some doc \<and> page_count doc \<noteq> 0 \<and>
    ((\<exists>e. int_of_str (start_page_entry s) = Inl e) \<or>
     (\<exists>e. int_of_str (end_page_entry s) = Inl e)) \<longrightarrow>
      extract_text_clicked s = s\<lparr>page_dialog := Some invalid_page_numbers\<rparr>)"
proof -
  have nv: "extract_text_clicked s = s\<lparr>page_dialog := Some invalid_page_numbers\<rparr>"
    if "pdf_doc s = Some doc" "page_count doc \<noteq> 0"
       "(\<exists>e. int_of_str (start_page_entry s) = Inl e) \<or>
        (\<exists>e. int_of_str (end_page_entry s) = Inl e)"
    using that
    by (cases "int_of_str (start_page_entry s)")
       (auto simp: extract_text_clicked_def show_error_dialog_def)
  have ex: "extract_text_from_pdf doc start end_page =
        Inr (concat (map (\<lambda>p. projr (page_text doc (p - 1))) [start..end_page]))"
    if "\<forall>p\<in>{start..end_page}. \<exists>t. page_text doc (p - 1) = Inr t"
    using that page_texts_readable [of "[start..end_page]" doc]
    by (simp add: extract_text_from_pdf_def)
  have cl: "extracted_text_content (extract_text_clicked s) = extracted_text_content s \<and>
      (page_count doc \<noteq> 0 \<longrightarrow>
         extract_text_clicked s = s\<lparr>page_dialog := Some (invalid_range doc)\<rparr>)"
    if "pdf_doc s = Some doc" "int_of_str (start_page_entry s) = Inr start"
       "int_of_str (end_page_entry s) = Inr end_page"
       "\<not> (1 \<le> start \<and> start \<le> end_page \<and> end_page \<le> page_count doc)"
    using that by (auto simp: extract_text_clicked_def show_error_dialog_def)
  have ok: "extracted_text_content (extract_text_clicked s) =
                 concat (map (\<lambda>p. projr (page_text doc (p - 1))) [start..end_page]) \<and>
               page_dialog (extract_text_clicked s) = page_dialog s"
    if "pdf_doc s = Some doc" "int_of_str (start_page_entry s) = Inr start"
       "int_of_str (end_page_entry s) = Inr end_page"
       "1 \<le> start \<and> start \<le> end_page \<and> end_page \<le> page_count doc"
       "\<forall>p\<in>{start..end_page}. \<exists>t. page_text doc (p - 1) = Inr t"
  proof -
    from that(4) have "page_count doc \<noteq> 0" by auto
    with that ex [OF that(5)] show ?thesis by (simp add: extract_text_clicked_def Let_def)
  qed
  from ex cl ok nv show ?thesis by auto
qed

lemma example_pdf_pages:
  "extract_text_from_pdf example_pdf 2 3 = Inr ''two three''"
  "concat (map (\<lambda>p. projr (page_text example_pdf (p - 1))) [2..3]) = ''two three''"
  "int_of_str ''2'' = Inr 2" "int_of_str ''3'' = Inr 3" "int_of_str ''4'' = Inr 4"
  "int_of_str ''1'' = Inr 1"
  by code_simp+

text \<open>
  C9 on the PDF of three pages: pages 2 to 3, then the entries \<open>3\<close>, \<open>2\<close> (start after
  end) and \<open>1\<close>, \<open>4\<close> (end beyond the last page), then a start entry with the
  separator character 28 before the \<open>2\<close>.
\<close>

theorem extract_text_in_range_witness:
  "(1::int) \<le> 2 \<and> (2::int) \<le> 3 \<and> 3 \<le> page_count example_pdf \<and>
   page_text example_pdf 1 = Inr ''two '' \<and> page_text example_pdf 2 = Inr ''three'' \<and>
   extract_text_from_pdf example_pdf 2 3 = Inr ''two three'' \<and>
   extracted_text_content (extract_text_clicked
       (example_app\<lparr>pdf_doc := Some example_pdf, start_page_entry := ''2'',
                     end_page_entry := ''3''\<rparr>)) = ''two three'' \<and>
   extract_text_clicked
       (example_app\<lparr>pdf_doc := Some example_pdf, start_page_entry := ''3'',
                     end_page_entry := ''2''\<rparr>) =
     example_app\<lparr>pdf_doc := Some example_pdf, start_page_entry := ''3'',
                  end_page_entry := ''2'', page_dialog := Some (invalid_range example_pdf)\<rparr> \<and>
   extract_text_clicked
       (example_app\<lparr>pdf_doc := Some example_pdf, start_page_entry := ''1'',
                     end_page_entry := ''4''\<rparr>) =
     example_app\<lparr>pdf_doc := Some example_pdf, start_page_entry := ''1'',
                  end_page_entry := ''4'', page_dialog := Some (invalid_range example_pdf)\<rparr> \<and>
   int_of_str [CHR 0x1C, CHR ''2''] = Inl ValueError \<and>
   extract_text_clicked
       (example_app\<lparr>pdf_doc := Some example_pdf, start_page_entry := [CHR 0x1C, CHR ''2''],
                     end_page_entry := ''3''\<rparr>) =
     example_app\<lparr>pdf_doc := Some example_pdf, start_page_entry := [CHR 0x1C, CHR ''2''],
                  end_page_entry := ''3'', page_dialog := Some invalid_page_numbers\<rparr>"
proof -
  have r: "\<forall>p\<in>{2..3}. \<exists>t. page_text example_pdf (p - 1) = Inr t"
    by (auto simp: example_pdf_def)
  have c: "page_count example_pdf = 3" "page_text example_pdf 1 = Inr ''two ''"
      "page_text example_pdf 2 = Inr ''three''"
    by (simp_all add: example_pdf_def)
  have a: "extract_text_from_pdf example_pdf 2 3 = Inr ''two three''"
    using extract_text_in_range [of 2 3 example_pdf] r c
    by (simp add: example_pdf_pages(2))
  have b: "extracted_text_content (extract_text_clicked
       (example_app\<lparr>pdf_doc := Some example_pdf, start_page_entry := ''2'',
                     end_page_entry := ''3''\<rparr>)) = ''two three''"
    using extract_text_in_range [of 2 3 example_pdf
        "example_app\<lparr>pdf_doc := Some example_pdf, start_page_entry := ''2'', end_page_entry := ''3''\<rparr>"]
      r c
    by (simp add: example_pdf_pages)
  have d: "extract_text_clicked
       (example_app\<lparr>pdf_doc := Some example_pdf, start_page_entry := ''3'',
                     end_page_entry := ''2''\<rparr>) =
     example_app\<lparr>pdf_doc := Some example_pdf, start_page_entry := ''3'',
                  end_page_entry := ''2'', page_dialog := Some (invalid_range example_pdf)\<rparr>"
    using extract_text_in_range [of 3 2 example_pdf
        "example_app\<lparr>pdf_doc := Some example_pdf, start_page_entry := ''3'', end_page_entry := ''2''\<rparr>"]
      c
    by (simp add: example_pdf_pages)
  have e: "extract_text_clicked
       (example_app\<lparr>pdf_doc := Some example_pdf, start_page_entry := ''1'',
                     end_page_entry := ''4''\<rparr>) =
     example_app\<lparr>pdf_doc := Some example_pdf, start_page_entry := ''1'',
                  end_page_entry := ''4'', page_dialog := Some (invalid_range example_pdf)\<rparr>"
    using extract_text_in_range [of 1 4 example_pdf
        "example_app\<lparr>pdf_doc := Some example_pdf, start_page_entry := ''1'', end_page_entry := ''4''\<rparr>"]
      c
    by (simp add: example_pdf_pages)
  have f: "extract_text_clicked
       (example_app\<lparr>pdf_doc := Some example_pdf, start_page_entry := [CHR 0x1C, CHR ''2''],
                     end_page_entry := ''3''\<rparr>) =
     example_app\<lparr>pdf_doc := Some example_pdf, start_page_entry := [CHR 0x1C, CHR ''2''],
                  end_page_entry := ''3'', page_dialog := Some invalid_page_numbers\<rparr>"
    using extract_text_in_range [of _ _ example_pdf
        "example_app\<lparr>pdf_doc := Some example_pdf, start_page_entry := [CHR 0x1C, CHR ''2''],
                      end_page_entry := ''3''\<rparr>"]
      c
    by (simp add: int_of_str_separator)
  from a b c d e f show ?thesis by (simp add: int_of_str_separator)
qed

text \<open>
  Claim C9 as the specification words it lets \<open>extract_text_from_pdf\<close> fail for a start
  page after the end page. The function has no range test: \<open>range(3, 3)\<close> is empty and
  the result is the empty string.
\<close>

theorem extract_text_from_pdf_counterexample:
  "\<not> ((3::int) \<le> 2) \<and> extract_text_from_pdf example_pdf 3 2 = Inr []"
  by (simp add: extract_text_from_pdf_def)

section \<open>Properties of the question generator\<close>

subsection \<open>Drawing without replacement\<close>

text \<open>
  \<open>draw\<close> returns as many elements as asked for, and they are a sub-multiset of the
  pool: no position is drawn twice. Drawing the whole pool gives a permutation of it.
\<close>

lemma mset_pop_at:
  "j < length xs \<Longrightarrow> mset xs = add_mset (xs ! j) (mset (pop_at j xs))"
proof -
  assume j: "j < length xs"
  then have "xs = take j xs @ xs ! j # drop (Suc j) xs" by (rule id_take_nth_drop)
  then have "mset xs = mset (take j xs @ xs ! j # drop (Suc j) xs)" by simp
  then show ?thesis by (simp add: pop_at_def)
qed

lemma length_pop_at: "j < length xs \<Longrightarrow> length (pop_at j xs) = length xs - 1"
  by (auto simp: pop_at_def)

lemma length_draw: "length (draw r k xs) = k"
  by (induction k arbitrary: xs) simp_all

lemma mset_draw: "k \<le> length xs \<Longrightarrow> mset (draw r k xs) \<subseteq># mset xs"
proof (induction k arbitrary: xs)
  case 0
  then show ?case by simp
next
  case (Suc k)
  define j where "j = r k mod length xs"
  from Suc.prems have pos: "0 < length xs" by (cases xs) simp_all
  then have j: "j < length xs" by (simp add: j_def)
  from Suc.prems j have "k \<le> length (pop_at j xs)" by (simp add: length_pop_at)
  then have "mset (draw r k (pop_at j xs)) \<subseteq># mset (pop_at j xs)" by (rule Suc.IH)
  then have "add_mset (xs ! j) (mset (draw r k (pop_at j xs))) \<subseteq># add_mset (xs ! j) (mset (pop_at j xs))"
    by simp
  with mset_pop_at [OF j] show ?case by (simp add: j_def)
qed

lemma mset_draw_all: "mset (draw r (length xs) xs) = mset xs"
proof -
  have s: "mset (draw r (length xs) xs) \<subseteq># mset xs" by (rule mset_draw) simp
  have "size (mset (draw r (length xs) xs)) = size (mset xs)" by (simp add: length_draw)
  with s show ?thesis
    using mset_subset_size [of "mset (draw r (length xs) xs)" "mset xs"]
    by (auto simp: subset_mset.less_le)
qed

lemma mset_list_of_set: "mset (list_of_set h xs) = mset (remdups xs)"
  by (simp add: list_of_set_def mset_draw_all)

lemma set_list_of_set: "set (list_of_set h xs) = set xs"
  using mset_list_of_set [of h xs] by (metis set_mset_mset set_remdups)

lemma distinct_list_of_set: "distinct (list_of_set h xs)"
  using mset_list_of_set [of h xs] by (metis distinct_remdups mset_eq_imp_distinct_iff)

lemma length_list_of_set: "length (list_of_set h xs) = card (set xs)"
  using distinct_list_of_set [of h xs] set_list_of_set [of h xs] by (metis distinct_card)

lemma mset_random_shuffle: "mset (random_shuffle r xs) = mset xs"
  by (simp add: random_shuffle_def mset_draw_all)

lemma distinct_sub_mset:
  assumes "mset xs \<subseteq># mset ys" "distinct ys"
  shows "distinct xs"
proof -
  have le: "count (mset xs) a \<le> 1" for a
  proof -
    have "count (mset xs) a \<le> count (mset ys) a"
      using assms(1) by (rule mset_subset_eq_count)
    also have "\<dots> \<le> 1" using assms(2) by (simp add: distinct_count_atmost_1)
    finally show ?thesis .
  qed
  show ?thesis
    unfolding distinct_count_atmost_1
  proof (intro allI)
    fix a
    show "count (mset xs) a = (if a \<in> set xs then 1 else 0)"
    proof (cases "a \<in> set xs")
      case True
      then have "0 < count (mset xs) a" by simp
      with le [of a] have "count (mset xs) a = 1" by linarith
      with True show ?thesis by simp
    next
      case False
      then show ?thesis by (simp add: count_eq_zero_iff)
    qed
  qed
qed

subsection \<open>The string operations\<close>

text \<open>
  \<open>str_contains\<close> is the substring test. \<open>str_replace\<close> leaves a string without an
  occurrence as it is, replaces the leftmost occurrence and goes on in the same way
  behind it: every occurrence found on the way is replaced, not only the first one.
  \<open>str_split\<close> yields non-empty words without whitespace that together hold the
  non-whitespace characters of the string.
\<close>

lemma str_contains_sublist: "str_contains old s = sublist old s"
  by (induction s) (simp_all add: sublist_Cons_right)

lemma str_contains_iff: "str_contains old s \<longleftrightarrow> (\<exists>p r. s = p @ old @ r)"
  by (simp add: str_contains_sublist sublist_def)

lemma str_replace_absent:
  "old \<noteq> [] \<Longrightarrow> \<not> str_contains old s \<Longrightarrow> str_replace old new s = s"
  by (induction s) (auto split: list.splits)

lemma str_replace_at_prefix:
  assumes "old \<noteq> []"
  shows "str_replace old new (old @ r) = new @ str_replace old new r"
proof -
  from assms obtain c os where old: "old = c # os" by (cases old) auto
  show ?thesis by (simp add: old)
qed

lemma str_replace_first:
  assumes "old \<noteq> []" "\<not> str_contains old (p @ butlast old)"
  shows "str_replace old new (p @ old @ r) = p @ new @ str_replace old new r"
  using assms(2)
proof (induction p)
  case Nil
  from assms(1) show ?case by (simp add: str_replace_at_prefix)
next
  case (Cons c p)
  from assms(1) obtain c0 os where old: "old = c0 # os" by (cases old) auto
  from Cons.prems have np: "\<not> prefix old (c # p @ butlast old)"
    and nc: "\<not> str_contains old (p @ butlast old)" by simp_all
  have "\<not> prefix old (c # p @ old @ r)"
  proof
    assume pr: "prefix old (c # p @ old @ r)"
    have le: "length old \<le> length (c # p @ butlast old)" by simp
    have "c # p @ old @ r = (c # p @ butlast old) @ (last old # r)"
      using assms(1) by simp
    with pr have "prefix old ((c # p @ butlast old) @ (last old # r))" by simp
    with le have "prefix old (c # p @ butlast old)"
      by (metis prefix_length_prefix prefixI append_eq_appendI le)
    with np show False by simp
  qed
  with Cons.IH [OF nc] show ?case by (auto simp: old)
qed

lemma str_replace_nonempty: "s \<noteq> [] \<Longrightarrow> new \<noteq> [] \<Longrightarrow> str_replace old new s \<noteq> []"
  by (cases s) (auto split: list.splits)

lemma concat_split_ws: "concat (split_ws w s) = rev w @ filter (\<lambda>c. \<not> isspace c) s"
  by (induction s arbitrary: w) simp_all

lemma words_split_ws:
  assumes "\<forall>c\<in>set w. \<not> isspace c" "x \<in> set (split_ws w s)"
  shows "x \<noteq> [] \<and> (\<forall>c\<in>set x. \<not> isspace c)"
  using assms
proof (induction s arbitrary: w)
  case Nil
  then have "w \<noteq> []" "x = rev w" by (simp_all split: if_splits)
  with Nil.prems(1) show ?case by simp
next
  case (Cons c cs)
  show ?case
  proof (cases "isspace c")
    case True
    with Cons.prems(2) have "(w \<noteq> [] \<and> x = rev w) \<or> x \<in> set (split_ws [] cs)"
      by (simp split: if_splits)
    then show ?thesis
    proof
      assume "w \<noteq> [] \<and> x = rev w"
      with Cons.prems(1) show ?thesis by simp
    next
      assume "x \<in> set (split_ws [] cs)"
      with Cons.IH [of "[]"] show ?thesis by simp
    qed
  next
    case False
    with Cons.prems(2) have x: "x \<in> set (split_ws (c # w) cs)" by simp
    from False Cons.prems(1) have "\<forall>a\<in>set (c # w). \<not> isspace a" by simp
    from Cons.IH [OF this x] show ?thesis .
  qed
qed

lemma str_split_words:
  "concat (str_split s) = filter (\<lambda>c. \<not> isspace c) s"
  "x \<in> set (str_split s) \<Longrightarrow> x \<noteq> [] \<and> (\<forall>c\<in>set x. \<not> isspace c)"
proof -
  show "concat (str_split s) = filter (\<lambda>c. \<not> isspace c) s"
    by (simp add: str_split_def concat_split_ws)
  assume "x \<in> set (str_split s)"
  then have "x \<in> set (split_ws [] s)" by (simp add: str_split_def)
  with words_split_ws [of "[]" x s] show "x \<noteq> [] \<and> (\<forall>c\<in>set x. \<not> isspace c)" by simp
qed

lemma find_sentence_find:
  "find_sentence a ss =
     (case List.find (\<lambda>s. str_contains a s \<and> 5 < length (str_split s)) ss of
        None \<Rightarrow> [] | Some s \<Rightarrow> str_replace a ''_____'' s)"
  by (induction ss) simp_all

subsection \<open>The shape of a generated question\<close>

lemma distinct_unique_entities: "distinct (unique_entities h d)"
  by (simp add: unique_entities_def Let_def named_entities_def distinct_list_of_set)

lemma length_filter_other:
  assumes "distinct u" "a \<in> set u"
  shows "length (filter (\<lambda>e. e \<noteq> a) u) = length u - 1"
proof -
  have "set (filter (\<lambda>e. e \<noteq> a) u) = set u - {a}" by auto
  moreover have "distinct (filter (\<lambda>e. e \<noteq> a) u)" using assms(1) by simp
  ultimately have "length (filter (\<lambda>e. e \<noteq> a) u) = card (set u - {a})"
    by (metis distinct_card)
  also have "\<dots> = card (set u) - 1" using assms(2) by simp
  also have "\<dots> = length u - 1" using assms(1) by (simp add: distinct_card)
  finally show ?thesis .
qed

lemma quiz_body_result:
  assumes "nlp t = Inr d" "u = unique_entities (set_order ch) d" "4 \<le> length u"
    "a = u ! (choice_index ch mod length u)"
  shows "quiz_body nlp ch t =
     Inr (Some \<lparr>question = (if find_sentence a (sents d) = [] then missing_word
                             else find_sentence a (sents d)),
                choices = random_shuffle (shuffle_index ch)
                  (draw (sample_index ch) 3 (filter (\<lambda>e. e \<noteq> a) u) @ [a]),
                answer = a\<rparr>)"
proof -
  from assms(3) have ne: "u \<noteq> []" by auto
  then have "choice_index ch mod length u < length u" by simp
  then have mem: "a \<in> set u" by (simp add: assms(4))
  have dis: "distinct u" by (simp add: assms(2) distinct_unique_entities)
  from dis mem have "length (filter (\<lambda>e. e \<noteq> a) u) = length u - 1"
    by (rule length_filter_other)
  with assms(3) have three: "\<not> length (filter (\<lambda>e. e \<noteq> a) u) < 3" by simp
  from assms(3) have nl: "\<not> length u < 4" by simp
  have c: "random_choice (choice_index ch) u = Inr a"
    using ne by (simp add: random_choice_def assms(4))
  have sm: "random_sample (sample_index ch) (filter (\<lambda>e. e \<noteq> a) u) 3 =
      Inr (draw (sample_index ch) 3 (filter (\<lambda>e. e \<noteq> a) u))"
    using three by (simp add: random_sample_def)
  show ?thesis
    using nl c sm unfolding quiz_body_def assms(1) assms(4) assms(2)
    by (simp add: Let_def)
qed

lemma generate_quiz_question_None:
  "generate_quiz_question nlp ch t = None \<longleftrightarrow>
     str_strip t = [] \<or> (\<exists>e. nlp t = Inl e) \<or>
     (\<exists>d. nlp t = Inr d \<and> length (unique_entities (set_order ch) d) < 4)"
proof (cases "nlp t")
  case (Inl e)
  then show ?thesis by (simp add: generate_quiz_question_def quiz_body_def)
next
  case (Inr d)
  show ?thesis
  proof (cases "length (unique_entities (set_order ch) d) < 4")
    case True
    with Inr show ?thesis by (simp add: generate_quiz_question_def quiz_body_def Let_def)
  next
    case False
    then have four: "4 \<le> length (unique_entities (set_order ch) d)" by simp
    from quiz_body_result [where nlp = nlp and t = t and d = d and ch = ch and
        u = "unique_entities (set_order ch) d", OF Inr refl four refl]
      Inr four False show ?thesis
      by (simp add: generate_quiz_question_def)
  qed
qed

lemma generate_quiz_question_Some:
  assumes "generate_quiz_question nlp ch t = Some q"
  shows "\<exists>d u a. nlp t = Inr d \<and> u = unique_entities (set_order ch) d \<and> 4 \<le> length u \<and>
           a = u ! (choice_index ch mod length u) \<and> a \<in> set u \<and>
           q = \<lparr>question = (if find_sentence a (sents d) = [] then missing_word
                               else find_sentence a (sents d)),
                 choices = random_shuffle (shuffle_index ch)
                   (draw (sample_index ch) 3 (filter (\<lambda>e. e \<noteq> a) u) @ [a]),
                 answer = a\<rparr>"
proof -
  from assms have n: "generate_quiz_question nlp ch t \<noteq> None" by simp
  then obtain d where d: "nlp t = Inr d" "\<not> length (unique_entities (set_order ch) d) < 4"
    unfolding generate_quiz_question_None by (cases "nlp t") auto
  define u where "u = unique_entities (set_order ch) d"
  define a where "a = u ! (choice_index ch mod length u)"
  from d(2) have four: "4 \<le> length u" by (simp add: u_def)
  then have "choice_index ch mod length u < length u" by (cases u) simp_all
  then have mem: "a \<in> set u" by (simp add: a_def)
  from n have s: "str_strip t \<noteq> []" unfolding generate_quiz_question_None by simp
  from quiz_body_result [where nlp = nlp and t = t and d = d and ch = ch and u = u and a = a,
      OF d(1) u_def four a_def] assms s
  have "q = \<lparr>question = (if find_sentence a (sents d) = [] then missing_word
                               else find_sentence a (sents d)),
                 choices = random_shuffle (shuffle_index ch)
                   (draw (sample_index ch) 3 (filter (\<lambda>e. e \<noteq> a) u) @ [a]),
                 answer = a\<rparr>"
    by (simp add: generate_quiz_question_def)
  with d(1) u_def four a_def mem show ?thesis by blast
qed

text \<open>
  Claim C1. When \<open>generate_quiz_question\<close> returns a question, its choices are four
  pairwise different strings and the answer is one of them. The other three are the
  distractors: three pairwise different candidates of the pool \<open>unique_entities\<close>,
  drawn without replacement from the pool without the answer (a sub-multiset of it),
  so none of them is the answer; the choices are a permutation of the distractors
  followed by the answer.
\<close>

theorem four_distinct_choices:
  assumes "generate_quiz_question nlp ch t = Some q"
  shows "length (choices q) = 4 \<and> distinct (choices q) \<and> answer q \<in> set (choices q) \<and>
         (\<exists>d distractors. nlp t = Inr d \<and>
            answer q \<in> set (unique_entities (set_order ch) d) \<and>
            length distractors = 3 \<and> distinct distractors \<and>
            mset distractors \<subseteq>#
              mset (filter (\<lambda>e. e \<noteq> answer q) (unique_entities (set_order ch) d)) \<and>
            answer q \<notin> set distractors \<and>
            mset (choices q) = mset (distractors @ [answer q]))"
proof -
  from generate_quiz_question_Some [OF assms] obtain d u a where
    g: "nlp t = Inr d" "u = unique_entities (set_order ch) d" "4 \<le> length u" "a \<in> set u"
       "q = \<lparr>question = (if find_sentence a (sents d) = [] then missing_word
                               else find_sentence a (sents d)),
                 choices = random_shuffle (shuffle_index ch)
                   (draw (sample_index ch) 3 (filter (\<lambda>e. e \<noteq> a) u) @ [a]),
                 answer = a\<rparr>"
    by blast
  define ds where "ds = draw (sample_index ch) 3 (filter (\<lambda>e. e \<noteq> a) u)"
  from g(5) have ans: "answer q = a" and ch: "choices q = random_shuffle (shuffle_index ch) (ds @ [a])"
    by (simp_all add: ds_def)
  have dis: "distinct u" by (simp add: g(2) distinct_unique_entities)
  from dis g(4) have "length (filter (\<lambda>e. e \<noteq> a) u) = length u - 1"
    by (rule length_filter_other)
  with g(3) have "3 \<le> length (filter (\<lambda>e. e \<noteq> a) u)" by simp
  then have sub: "mset ds \<subseteq># mset (filter (\<lambda>e. e \<noteq> a) u)"
    unfolding ds_def by (rule mset_draw)
  have len: "length ds = 3" by (simp add: ds_def length_draw)
  from dis have "distinct (filter (\<lambda>e. e \<noteq> a) u)" by simp
  with sub have dds: "distinct ds" by (rule distinct_sub_mset)
  from sub have "set ds \<subseteq> set (filter (\<lambda>e. e \<noteq> a) u)"
    using set_mset_mono by fastforce
  then have notin: "a \<notin> set ds" by auto
  have m: "mset (choices q) = mset (ds @ [a])" by (simp add: ch mset_random_shuffle)
  then have "length (choices q) = length (ds @ [a])" by (rule mset_eq_length)
  with len have l4: "length (choices q) = 4" by simp
  from dds notin have "distinct (ds @ [a])" by simp
  with m have dc: "distinct (choices q)" by (metis mset_eq_imp_distinct_iff)
  from m have "set (choices q) = set (ds @ [a])" by (rule mset_eq_setD)
  then have ain: "a \<in> set (choices q)" by simp
  from g(1) g(2) g(4) len dds sub notin m l4 dc ain ans show ?thesis by auto
qed

text \<open>C1 on the question the example document yields.\<close>

theorem four_distinct_choices_witness:
  "generate_quiz_question (\<lambda>t. Inr example_doc) example_chance
       (extracted_text_content example_app) =
     Some \<lparr>question = ''In _____ Alice met Bob near _____ on Monday.'',
           choices = [''Monday'', ''Acme'', ''Paris'', ''Alice''], answer = ''Paris''\<rparr> \<and>
   length [''Monday'', ''Acme'', ''Paris'', ''Alice''] = 4 \<and>
   distinct [''Monday'', ''Acme'', ''Paris'', ''Alice''] \<and>
   ''Paris'' \<in> set [''Monday'', ''Acme'', ''Paris'', ''Alice''] \<and>
   (\<exists>distractors. ''Paris'' \<in> set (unique_entities (set_order example_chance) example_doc) \<and>
      length distractors = 3 \<and> distinct distractors \<and>
      mset distractors \<subseteq>#
        mset (filter (\<lambda>e. e \<noteq> ''Paris'') (unique_entities (set_order example_chance) example_doc)) \<and>
      ''Paris'' \<notin> set distractors \<and>
      mset [''Monday'', ''Acme'', ''Paris'', ''Alice''] = mset (distractors @ [''Paris'']))"
proof -
  note q = example_doc_question
  from four_distinct_choices [OF q] show ?thesis
    using q by auto
qed

subsection \<open>The candidate pool\<close>

lemma set_named_entities:
  "set (named_entities h d) =
     {str_strip (ent_text e) | e. e \<in> set (ents d) \<and> ent_label e \<in> set entity_labels \<and>
        1 < length (str_strip (ent_text e))}"
  by (auto simp: named_entities_def entities_def set_list_of_set)

lemma set_important_nouns:
  "set (important_nouns d) =
     {tok_text t | t. t \<in> set (tokens d) \<and> tok_pos t = ''NOUN'' \<and> \<not> tok_is_stop t \<and>
        3 < length (tok_text t)}"
  by (auto simp: important_nouns_def)

lemma set_significant_words:
  "set (significant_words d) =
     {tok_text t | t. t \<in> set (tokens d) \<and> \<not> tok_is_stop t \<and> \<not> tok_is_punct t \<and>
        2 < length (tok_text t)}"
  by (auto simp: significant_words_def)

lemma set_unique_entities:
  "set (unique_entities h d) =
     (if 4 \<le> card (set (named_entities h d)) then set (named_entities h d)
      else if 4 \<le> card (set (important_nouns d)) then set (important_nouns d)
      else set (significant_words d))"
proof -
  have n: "length (named_entities h d) = card (set (named_entities h d))"
    by (simp add: named_entities_def length_list_of_set set_list_of_set)
  show ?thesis
    by (simp add: unique_entities_def Let_def n length_list_of_set set_list_of_set)
qed

lemma length_unique_entities:
  "length (unique_entities h d) < 4 \<longleftrightarrow>
     card (set (named_entities h d)) < 4 \<and> card (set (important_nouns d)) < 4 \<and>
     card (set (significant_words d)) < 4"
proof -
  have "length (unique_entities h d) = card (set (unique_entities h d))"
    by (simp add: distinct_card distinct_unique_entities)
  then show ?thesis by (auto simp: set_unique_entities)
qed

lemma set_draw:
  assumes "k \<le> length xs"
  shows "set (draw r k xs) \<subseteq> set xs"
proof -
  from assms have "mset (draw r k xs) \<subseteq># mset xs" by (rule mset_draw)
  then have "set_mset (mset (draw r k xs)) \<subseteq> set_mset (mset xs)" by (rule set_mset_mono)
  then show ?thesis by simp
qed

lemma choices_in_pool:
  assumes "generate_quiz_question nlp ch t = Some q"
  shows "\<exists>d. nlp t = Inr d \<and> answer q \<in> set (unique_entities (set_order ch) d) \<and>
           set (choices q) \<subseteq> set (unique_entities (set_order ch) d)"
proof -
  from generate_quiz_question_Some [OF assms] obtain d u a where
    g: "nlp t = Inr d" "u = unique_entities (set_order ch) d" "4 \<le> length u" "a \<in> set u"
       "q = \<lparr>question = (if find_sentence a (sents d) = [] then missing_word
                               else find_sentence a (sents d)),
                 choices = random_shuffle (shuffle_index ch)
                   (draw (sample_index ch) 3 (filter (\<lambda>e. e \<noteq> a) u) @ [a]),
                 answer = a\<rparr>"
    by blast
  define ds where "ds = draw (sample_index ch) 3 (filter (\<lambda>e. e \<noteq> a) u)"
  have dis: "distinct u" by (simp add: g(2) distinct_unique_entities)
  from dis g(4) have "length (filter (\<lambda>e. e \<noteq> a) u) = length u - 1"
    by (rule length_filter_other)
  with g(3) have "3 \<le> length (filter (\<lambda>e. e \<noteq> a) u)" by simp
  then have "set ds \<subseteq> set (filter (\<lambda>e. e \<noteq> a) u)"
    unfolding ds_def by (rule set_draw)
  then have sub: "set ds \<subseteq> set u" by auto
  from g(5) have ans: "answer q = a"
    and ch: "choices q = random_shuffle (shuffle_index ch) (ds @ [a])"
    by (simp_all add: ds_def)
  have "mset (choices q) = mset (ds @ [a])" by (simp add: ch mset_random_shuffle)
  then have "set (choices q) = set (ds @ [a])" by (rule mset_eq_setD)
  with sub g(4) have c: "set (choices q) \<subseteq> set u" by simp
  from g(4) ans have m: "answer q \<in> set u" by simp
  from g(1) m [unfolded g(2)] c [unfolded g(2)] show ?thesis by blast
qed

text \<open>
  Claim C2, as the code has it. The pool has no duplicates and is taken from the first
  tier, in this order, that has at least four different strings: the stripped texts,
  longer than one character, of the entities labelled PERSON, GPE, ORG, PRODUCT, LOC,
  MONEY, DATE or TIME; else the texts, longer than three characters, of the tokens
  tagged \<open>NOUN\<close> that are not stop words (\<open>is_punct\<close> is not read in this tier); else
  the texts, longer than two characters, of the tokens that are neither stop words nor
  punctuation. The answer and all choices of a generated question are in the pool.
\<close>

theorem candidate_pool_tiers:
  "distinct (unique_entities h d) \<and>
   set (unique_entities h d) =
     (if 4 \<le> card {str_strip (ent_text e) | e. e \<in> set (ents d) \<and>
                      ent_label e \<in> {''PERSON'', ''GPE'', ''ORG'', ''PRODUCT'', ''LOC'',
                                        ''MONEY'', ''DATE'', ''TIME''} \<and>
                      1 < length (str_strip (ent_text e))}
      then {str_strip (ent_text e) | e. e \<in> set (ents d) \<and>
              ent_label e \<in> {''PERSON'', ''GPE'', ''ORG'', ''PRODUCT'', ''LOC'',
                                ''MONEY'', ''DATE'', ''TIME''} \<and>
              1 < length (str_strip (ent_text e))}
      else if 4 \<le> card {tok_text t | t. t \<in> set (tokens d) \<and> tok_pos t = ''NOUN'' \<and>
                            \<not> tok_is_stop t \<and> 3 < length (tok_text t)}
      then {tok_text t | t. t \<in> set (tokens d) \<and> tok_pos t = ''NOUN'' \<and>
              \<not> tok_is_stop t \<and> 3 < length (tok_text t)}
      else {tok_text t | t. t \<in> set (tokens d) \<and> \<not> tok_is_stop t \<and> \<not> tok_is_punct t \<and>
              2 < length (tok_text t)}) \<and>
   (generate_quiz_question nlp ch t = Some q \<longrightarrow>
      (\<exists>d'. nlp t = Inr d' \<and> answer q \<in> set (unique_entities (set_order ch) d') \<and>
            set (choices q) \<subseteq> set (unique_entities (set_order ch) d')))"
proof (intro conjI impI)
  show "distinct (unique_entities h d)" by (rule distinct_unique_entities)
next
  have l: "set entity_labels = {''PERSON'', ''GPE'', ''ORG'', ''PRODUCT'', ''LOC'',
                                        ''MONEY'', ''DATE'', ''TIME''}"
    by (simp add: entity_labels_def)
  show "set (unique_entities h d) =
     (if 4 \<le> card {str_strip (ent_text e) | e. e \<in> set (ents d) \<and>
                      ent_label e \<in> {''PERSON'', ''GPE'', ''ORG'', ''PRODUCT'', ''LOC'',
                                        ''MONEY'', ''DATE'', ''TIME''} \<and>
                      1 < length (str_strip (ent_text e))}
      then {str_strip (ent_text e) | e. e \<in> set (ents d) \<and>
              ent_label e \<in> {''PERSON'', ''GPE'', ''ORG'', ''PRODUCT'', ''LOC'',
                                ''MONEY'', ''DATE'', ''TIME''} \<and>
              1 < length (str_strip (ent_text e))}
      else if 4 \<le> card {tok_text t | t. t \<in> set (tokens d) \<and> tok_pos t = ''NOUN'' \<and>
                            \<not> tok_is_stop t \<and> 3 < length (tok_text t)}
      then {tok_text t | t. t \<in> set (tokens d) \<and> tok_pos t = ''NOUN'' \<and>
              \<not> tok_is_stop t \<and> 3 < length (tok_text t)}
      else {tok_text t | t. t \<in> set (tokens d) \<and> \<not> tok_is_stop t \<and> \<not> tok_is_punct t \<and>
              2 < length (tok_text t)})"
    unfolding set_unique_entities set_named_entities set_important_nouns
      set_significant_words l ..
next
  assume "generate_quiz_question nlp ch t = Some q"
  then show "\<exists>d'. nlp t = Inr d' \<and> answer q \<in> set (unique_entities (set_order ch) d') \<and>
            set (choices q) \<subseteq> set (unique_entities (set_order ch) d')"
    by (rule choices_in_pool)
qed

lemma example_pools:
  "unique_entities (set_order example_chance) example_doc = [''Paris'', ''Acme'', ''Monday'', ''Alice'']"
  "unique_entities (set_order example_chance) noun_doc = [''mountain'', ''forest'', ''river'', ''valley'']"
  "named_entities (set_order example_chance) noun_doc = [''Alice'']"
  by code_simp+

text \<open>
  C2 on the example document (first tier) and on the document of nouns (one entity
  only, second tier).
\<close>

theorem candidate_pool_tiers_witness:
  "generate_quiz_question (\<lambda>t. Inr example_doc) example_chance
       (extracted_text_content example_app) =
     Some \<lparr>question = ''In _____ Alice met Bob near _____ on Monday.'',
           choices = [''Monday'', ''Acme'', ''Paris'', ''Alice''], answer = ''Paris''\<rparr> \<and>
   unique_entities (set_order example_chance) example_doc = [''Paris'', ''Acme'', ''Monday'', ''Alice''] \<and>
   ''Paris'' \<in> set (unique_entities (set_order example_chance) example_doc) \<and>
   set [''Monday'', ''Acme'', ''Paris'', ''Alice'']
     \<subseteq> set (unique_entities (set_order example_chance) example_doc) \<and>
   distinct (unique_entities (set_order example_chance) noun_doc) \<and>
   named_entities (set_order example_chance) noun_doc = [''Alice''] \<and>
   unique_entities (set_order example_chance) noun_doc = [''mountain'', ''forest'', ''river'', ''valley'']"
proof -
  note q = example_doc_question
  from candidate_pool_tiers [of "set_order example_chance" noun_doc "\<lambda>t. Inr example_doc"
      example_chance "extracted_text_content example_app"
      "\<lparr>question = ''In _____ Alice met Bob near _____ on Monday.'',
           choices = [''Monday'', ''Acme'', ''Paris'', ''Alice''], answer = ''Paris''\<rparr>"] q
  have "distinct (unique_entities (set_order example_chance) noun_doc) \<and>
      ''Paris'' \<in> set (unique_entities (set_order example_chance) example_doc) \<and>
      set [''Monday'', ''Acme'', ''Paris'', ''Alice'']
        \<subseteq> set (unique_entities (set_order example_chance) example_doc)"
    by simp
  with q example_pools show ?thesis by simp
qed

text \<open>
  Claim C2 as the specification words it keeps punctuation out of the second tier.
  In \<open>punct_doc\<close> the four tokens tagged \<open>NOUN\<close> all have \<open>is_punct\<close> set, and there
  are four significant words; the pool is nevertheless the four punctuation tokens,
  and the answer is one of them.
\<close>

theorem punctuation_nouns_counterexample:
  "map tok_pos (tokens punct_doc) =
     [''NOUN'', ''NOUN'', ''NOUN'', ''NOUN'', ''VERB'', ''VERB'', ''VERB'', ''VERB''] \<and>
   map tok_is_punct (tokens punct_doc) = [True, True, True, True, False, False, False, False] \<and>
   named_entities (set_order example_chance) punct_doc = [] \<and>
   significant_words punct_doc = [''jumped'', ''walked'', ''talked'', ''rested''] \<and>
   unique_entities (set_order example_chance) punct_doc = [''----'', ''****'', ''....'', ''____''] \<and>
   generate_quiz_question (\<lambda>t. Inr punct_doc) example_chance ''---- **** .... ____'' =
     Some \<lparr>question = ''What is the missing word: _____?'',
           choices = [''....'', ''****'', ''----'', ''____''], answer = ''----''\<rparr>"
  by code_simp

subsection \<open>No question\<close>

text \<open>
  Claim C3. \<open>generate_quiz_question\<close> returns \<open>None\<close> exactly when the text is blank,
  when the language analysis raises, or when each of the three tiers has fewer than
  four different strings; being a total function into \<open>option\<close>, with the \<open>except\<close>
  clause as a branch, it lets no exception out. When this happens in a quiz that has
  not reached its goal, \<open>generate_and_display_mcq\<close> shows the dialog "Quiz Content
  Exhausted" and ends the quiz through \<open>end_quiz_clicked\<close>: the main view is back, no
  timer is pending, the counters are as they were.
\<close>

theorem no_question_without_candidates:
  "((str_strip t = [] \<or> (\<exists>e. nlp t = Inl e) \<or>
     (\<exists>d. nlp t = Inr d \<and> card (set (named_entities (set_order ch) d)) < 4 \<and>
          card (set (important_nouns d)) < 4 \<and> card (set (significant_words d)) < 4))
      \<longleftrightarrow> generate_quiz_question nlp ch t = None) \<and>
   (generate_quiz_question nlp ch (extracted_text_content s) = None \<and>
    quiz_questions_asked s < max_questions s \<longrightarrow>
      page_controls (generate_and_display_mcq nlp ch s) = Main_view \<and>
      page_dialog (generate_and_display_mcq nlp ch s) =
        Some (''Quiz Content Exhausted'', content_exhausted_message s) \<and>
      \<not> quiz_timer (generate_and_display_mcq nlp ch s) \<and>
      quiz_score (generate_and_display_mcq nlp ch s) = quiz_score s \<and>
      quiz_questions_asked (generate_and_display_mcq nlp ch s) = quiz_questions_asked s)"
proof (intro conjI impI)
  show "(str_strip t = [] \<or> (\<exists>e. nlp t = Inl e) \<or>
     (\<exists>d. nlp t = Inr d \<and> card (set (named_entities (set_order ch) d)) < 4 \<and>
          card (set (important_nouns d)) < 4 \<and> card (set (significant_words d)) < 4))
      \<longleftrightarrow> generate_quiz_question nlp ch t = None"
    unfolding generate_quiz_question_None length_unique_entities ..
next
  assume a: "generate_quiz_question nlp ch (extracted_text_content s) = None \<and>
    quiz_questions_asked s < max_questions s"
  define s1 where "s1 = s\<lparr>quiz_feedback_label := [], quiz_submit_button_disabled := False,
       quiz_score_label := ''Score: '' @ str_of_int (quiz_score s) @ '' | Question: '' @
           str_of_int (quiz_questions_asked s + 1) @ '' of '' @ str_of_int (max_questions s)\<rparr>"
  have m: "content_exhausted_message s1 = content_exhausted_message s"
    by (simp add: content_exhausted_message_def s1_def)
  from a have "generate_and_display_mcq nlp ch s =
      end_quiz_clicked (show_error_dialog (content_exhausted_message s1) ''Quiz Content Exhausted'' s1)"
    by (simp add: generate_and_display_mcq_def Let_def s1_def)
  then have g: "generate_and_display_mcq nlp ch s =
      end_quiz_clicked (show_error_dialog (content_exhausted_message s) ''Quiz Content Exhausted'' s1)"
    by (simp only: m)
  show "page_controls (generate_and_display_mcq nlp ch s) = Main_view"
    unfolding g by (rule end_quiz_clicked_view)
  show "\<not> quiz_timer (generate_and_display_mcq nlp ch s)"
    unfolding g by (rule end_quiz_clicked_view)
  show "page_dialog (generate_and_display_mcq nlp ch s) =
        Some (''Quiz Content Exhausted'', content_exhausted_message s)"
    unfolding g
    by (simp add: end_quiz_clicked_def handle_quiz_end_def build_main_view_def
        update_score_display_def save_scores_def show_error_dialog_def)
  show "quiz_score (generate_and_display_mcq nlp ch s) = quiz_score s"
    by (rule generate_and_display_mcq_counters)
  show "quiz_questions_asked (generate_and_display_mcq nlp ch s) = quiz_questions_asked s"
    by (rule generate_and_display_mcq_counters)
qed

lemma blank_texts: "str_strip [] = []" "str_strip [CHR 0x20, CHR 0x09, CHR 0x0A] = []"
  by code_simp+

lemma empty_doc_tiers:
  "named_entities (set_order example_chance) empty_doc = []"
  "important_nouns empty_doc = []" "significant_words empty_doc = []"
  by code_simp+

text \<open>
  C3 on the empty text, on whitespace only, on a model that cannot be loaded, and on
  the document without candidates in the example quiz.
\<close>

theorem no_question_without_candidates_witness:
  "str_strip [] = [] \<and>
   generate_quiz_question (\<lambda>t. Inr example_doc) example_chance [] = None \<and>
   str_strip [CHR 0x20, CHR 0x09, CHR 0x0A] = [] \<and>
   generate_quiz_question (\<lambda>t. Inr example_doc) example_chance [CHR 0x20, CHR 0x09, CHR 0x0A] = None \<and>
   generate_quiz_question (\<lambda>t. Inl (RuntimeError ''no model'')) example_chance ''some text'' = None \<and>
   card (set (named_entities (set_order example_chance) empty_doc)) < 4 \<and>
   card (set (important_nouns empty_doc)) < 4 \<and> card (set (significant_words empty_doc)) < 4 \<and>
   generate_quiz_question (\<lambda>t. Inr empty_doc) example_chance
     (extracted_text_content example_app) = None \<and>
   quiz_questions_asked example_app < max_questions example_app \<and>
   page_controls (generate_and_display_mcq (\<lambda>t. Inr empty_doc) example_chance example_app) = Main_view \<and>
   page_dialog (generate_and_display_mcq (\<lambda>t. Inr empty_doc) example_chance example_app) =
     Some (''Quiz Content Exhausted'', content_exhausted_message example_app) \<and>
   \<not> quiz_timer (generate_and_display_mcq (\<lambda>t. Inr empty_doc) example_chance example_app) \<and>
   quiz_questions_asked (generate_and_display_mcq (\<lambda>t. Inr empty_doc) example_chance example_app) = 2"
proof -
  have a: "generate_quiz_question (\<lambda>t. Inr example_doc) example_chance [] = None"
    using no_question_without_candidates [of "[]" "\<lambda>t. Inr example_doc" example_chance example_app]
      blank_texts(1) by blast
  have b: "generate_quiz_question (\<lambda>t. Inr example_doc) example_chance [CHR 0x20, CHR 0x09, CHR 0x0A] = None"
    using no_question_without_candidates [of "[CHR 0x20, CHR 0x09, CHR 0x0A]" "\<lambda>t. Inr example_doc" example_chance example_app]
      blank_texts(2) by blast
  have c: "generate_quiz_question (\<lambda>t. Inl (RuntimeError ''no model'')) example_chance ''some text'' = None"
    using no_question_without_candidates [of "''some text''" "\<lambda>t. Inl (RuntimeError ''no model'')"
        example_chance example_app]
    by blast
  have e: "card (set (named_entities (set_order example_chance) empty_doc)) < 4 \<and>
      card (set (important_nouns empty_doc)) < 4 \<and> card (set (significant_words empty_doc)) < 4"
    by (simp add: empty_doc_tiers)
  have d: "generate_quiz_question (\<lambda>t. Inr empty_doc) example_chance
     (extracted_text_content example_app) = None"
    using no_question_without_candidates [of "extracted_text_content example_app"
        "\<lambda>t. Inr empty_doc" example_chance example_app] e
    by blast
  have l: "quiz_questions_asked example_app < max_questions example_app"
    "quiz_questions_asked example_app = 2"
    by (simp_all add: example_app_def)
  from no_question_without_candidates [of "extracted_text_content example_app"
        "\<lambda>t. Inr empty_doc" example_chance example_app] d l
  have f: "page_controls (generate_and_display_mcq (\<lambda>t. Inr empty_doc) example_chance example_app) = Main_view \<and>
   page_dialog (generate_and_display_mcq (\<lambda>t. Inr empty_doc) example_chance example_app) =
     Some (''Quiz Content Exhausted'', content_exhausted_message example_app) \<and>
   \<not> quiz_timer (generate_and_display_mcq (\<lambda>t. Inr empty_doc) example_chance example_app) \<and>
   quiz_questions_asked (generate_and_display_mcq (\<lambda>t. Inr empty_doc) example_chance example_app) = 2"
    by simp
  from a b c d e f l(1) blank_texts show ?thesis by blast
qed

subsection \<open>The prompt\<close>

lemma unique_entities_nonempty: "x \<in> set (unique_entities h d) \<Longrightarrow> x \<noteq> []"
  unfolding set_unique_entities set_named_entities set_important_nouns set_significant_words
  by (auto split: if_splits)

text \<open>
  Claim C4. The prompt of a generated question comes from the first sentence of
  \<open>doc.sents\<close> that has the answer as a substring and more than five words: it is that
  sentence with the answer replaced by \<open>"_____"\<close> throughout, that is, where the
  leftmost occurrence of the answer starts behind \<open>p\<close>, the prompt is \<open>p\<close>, the
  placeholder, and the rest of the sentence treated in the same way. Without such a
  sentence the prompt is \<open>"What is the missing word: _____?"\<close>.
\<close>

theorem prompt_from_first_sentence:
  assumes "generate_quiz_question nlp ch t = Some q"
  shows "\<exists>d. nlp t = Inr d \<and>
     (case List.find (\<lambda>s. (\<exists>p r. s = p @ answer q @ r) \<and> 5 < length (str_split s)) (sents d) of
        None \<Rightarrow> question q = missing_word
      | Some s \<Rightarrow>
          question q = str_replace (answer q) ''_____'' s \<and>
          (\<forall>p r. s = p @ answer q @ r \<and> \<not> str_contains (answer q) (p @ butlast (answer q)) \<longrightarrow>
             question q = p @ ''_____'' @ str_replace (answer q) ''_____'' r))"
proof -
  from generate_quiz_question_Some [OF assms] obtain d u a where
    g: "nlp t = Inr d" "u = unique_entities (set_order ch) d" "a \<in> set u"
       "q = \<lparr>question = (if find_sentence a (sents d) = [] then missing_word
                               else find_sentence a (sents d)),
                 choices = random_shuffle (shuffle_index ch)
                   (draw (sample_index ch) 3 (filter (\<lambda>e. e \<noteq> a) u) @ [a]),
                 answer = a\<rparr>"
    by blast
  from g(4) have ans: "answer q = a"
    and qu: "question q = (if find_sentence a (sents d) = [] then missing_word
                               else find_sentence a (sents d))"
    by simp_all
  from g(2) g(3) have ne: "a \<noteq> []" by (simp add: unique_entities_nonempty)
  have p: "(\<lambda>s. (\<exists>p r. s = p @ a @ r) \<and> 5 < length (str_split s)) =
      (\<lambda>s. str_contains a s \<and> 5 < length (str_split s))"
    by (simp add: str_contains_iff)
  have "case List.find (\<lambda>s. str_contains a s \<and> 5 < length (str_split s)) (sents d) of
        None \<Rightarrow> question q = missing_word
      | Some s \<Rightarrow>
          question q = str_replace a ''_____'' s \<and>
          (\<forall>p r. s = p @ a @ r \<and> \<not> str_contains a (p @ butlast a) \<longrightarrow>
             question q = p @ ''_____'' @ str_replace a ''_____'' r)"
  proof (cases "List.find (\<lambda>s. str_contains a s \<and> 5 < length (str_split s)) (sents d)")
    case None
    then show ?thesis by (simp add: qu find_sentence_find)
  next
    case (Some s)
    then have "5 < length (str_split s)" by (auto simp: find_Some_iff)
    then have "s \<noteq> []" by (auto simp: str_split_def)
    then have "str_replace a ''_____'' s \<noteq> []" by (rule str_replace_nonempty) simp
    with Some have e: "question q = str_replace a ''_____'' s"
      by (simp add: qu find_sentence_find)
    have "question q = p @ ''_____'' @ str_replace a ''_____'' r"
      if "s = p @ a @ r \<and> \<not> str_contains a (p @ butlast a)" for p r
      using that str_replace_first [OF ne, of p "''_____''" r] e by simp
    with e Some show ?thesis by simp
  qed
  with g(1) show ?thesis unfolding ans p by blast
qed

lemma example_sentences:
  "List.find (\<lambda>s. str_contains ''Paris'' s \<and> 5 < length (str_split s)) (sents example_doc) =
     Some ''In Paris Alice met Bob near Paris on Monday.''"
  "str_contains ''Paris'' ''Paris is big.''" "length (str_split ''Paris is big.'') = 3"
  "\<not> str_contains ''Paris'' (''In '' @ butlast ''Paris'')"
  "str_replace ''Paris'' ''_____'' '' Alice met Bob near Paris on Monday.'' =
     '' Alice met Bob near _____ on Monday.''"
  "generate_quiz_question (\<lambda>t. Inr noun_doc) example_chance ''rivers'' =
     Some \<lparr>question = ''What is the missing word: _____?'',
           choices = [''river'', ''forest'', ''mountain'', ''valley''], answer = ''mountain''\<rparr>"
  by code_simp+

text \<open>
  C4 on the example document: the first sentence contains the answer but has three
  words, the second one qualifies and both occurrences of the answer are replaced;
  the document of nouns has no sentence, so the generic prompt is used.
\<close>

theorem prompt_from_first_sentence_witness:
  "generate_quiz_question (\<lambda>t. Inr example_doc) example_chance
       (extracted_text_content example_app) =
     Some \<lparr>question = ''In _____ Alice met Bob near _____ on Monday.'',
           choices = [''Monday'', ''Acme'', ''Paris'', ''Alice''], answer = ''Paris''\<rparr> \<and>
   sents example_doc = [''Paris is big.'', ''In Paris Alice met Bob near Paris on Monday.''] \<and>
   str_contains ''Paris'' ''Paris is big.'' \<and> length (str_split ''Paris is big.'') = 3 \<and>
   ''In _____ Alice met Bob near _____ on Monday.'' =
     str_replace ''Paris'' ''_____'' ''In Paris Alice met Bob near Paris on Monday.'' \<and>
   ''In _____ Alice met Bob near _____ on Monday.'' =
     ''In '' @ ''_____'' @ str_replace ''Paris'' ''_____'' '' Alice met Bob near Paris on Monday.'' \<and>
   sents noun_doc = [] \<and>
   generate_quiz_question (\<lambda>t. Inr noun_doc) example_chance ''rivers'' =
     Some \<lparr>question = missing_word,
           choices = [''river'', ''forest'', ''mountain'', ''valley''], answer = ''mountain''\<rparr>"
proof -
  note q = example_doc_question
  have p: "(\<lambda>s. (\<exists>p r. s = p @ ''Paris'' @ r) \<and> 5 < length (str_split s)) =
      (\<lambda>s. str_contains ''Paris'' s \<and> 5 < length (str_split s))"
    by (simp add: str_contains_iff)
  from prompt_from_first_sentence [OF q]
  have "case List.find (\<lambda>s. (\<exists>p r. s = p @ ''Paris'' @ r) \<and> 5 < length (str_split s))
             (sents example_doc) of
          None \<Rightarrow> ''In _____ Alice met Bob near _____ on Monday.'' = missing_word
        | Some s \<Rightarrow>
            ''In _____ Alice met Bob near _____ on Monday.'' = str_replace ''Paris'' ''_____'' s \<and>
            (\<forall>p r. s = p @ ''Paris'' @ r \<and> \<not> str_contains ''Paris'' (p @ butlast ''Paris'') \<longrightarrow>
               ''In _____ Alice met Bob near _____ on Monday.'' =
                 p @ ''_____'' @ str_replace ''Paris'' ''_____'' r)"
    by (simp cong: option.case_cong)
  then have r: "''In _____ Alice met Bob near _____ on Monday.'' =
        str_replace ''Paris'' ''_____'' ''In Paris Alice met Bob near Paris on Monday.'' \<and>
      (\<forall>p r. ''In Paris Alice met Bob near Paris on Monday.'' = p @ ''Paris'' @ r \<and>
             \<not> str_contains ''Paris'' (p @ butlast ''Paris'') \<longrightarrow>
               ''In _____ Alice met Bob near _____ on Monday.'' =
                 p @ ''_____'' @ str_replace ''Paris'' ''_____'' r)"
    unfolding p example_sentences(1) by simp
  have d: "''In Paris Alice met Bob near Paris on Monday.'' =
      ''In '' @ ''Paris'' @ '' Alice met Bob near Paris on Monday.''" by simp
  from r d example_sentences(4)
  have f: "''In _____ Alice met Bob near _____ on Monday.'' =
     ''In '' @ ''_____'' @ str_replace ''Paris'' ''_____'' '' Alice met Bob near Paris on Monday.''"
    by blast
  have n: "sents noun_doc = []" by (simp add: noun_doc_def)
  have e: "sents example_doc = [''Paris is big.'', ''In Paris Alice met Bob near Paris on Monday.'']"
    by (simp add: example_doc_def)
  have m: "generate_quiz_question (\<lambda>t. Inr noun_doc) example_chance ''rivers'' =
     Some \<lparr>question = missing_word,
           choices = [''river'', ''forest'', ''mountain'', ''valley''], answer = ''mountain''\<rparr>"
    using prompt_from_first_sentence [OF example_sentences(6)] n
    by (simp add: example_sentences(6) missing_word_def)
  from q r f n e m example_sentences(2,3) show ?thesis by blast
qed

end
